theory Spec2Isabelle
  imports Main "HOL-Library.Sublist" "HOL-Library.Word"
begin

section \<open>scgi\_run: a CGI script executed over an SCGI connection\<close>

text \<open>
  A shallow embedding of \<^verbatim>\<open>scgi_run.c\<close>. The process is a record of its input stream, its
  output stream and its environment table; every function of the source takes the process
  state and returns the new one together with either a value or the way the process stopped.

  Assumptions about the platform, each stated where it is used:
  \<^item> \<^verbatim>\<open>malloc\<close>, \<^verbatim>\<open>vasprintf\<close> and the allocation inside \<^verbatim>\<open>setenv\<close> do not run out of
    memory (the header buffer is at most 262145 bytes);
  \<^item> \<^verbatim>\<open>char\<close> is an 8-bit byte, \<^verbatim>\<open>size_t\<close> has 64 bits, and \<^verbatim>\<open>read_char\<close> yields the byte
    that was read;
  \<^item> the argument strings of the process lie one after another in memory, as the kernel
    puts them.
\<close>

subsection \<open>Constants\<close>

definition MAX_HEADER_LENGTH :: int where
  "MAX_HEADER_LENGTH = 262144"

definition NUL :: char where
  "NUL = CHR 0x00"

definition CRLF :: string where
  "CRLF = [CHR 0x0D, CHR 0x0A]"

definition LF :: string where
  "LF = [CHR 0x0A]"

definition ENOENT :: nat where
  "ENOENT = 2"

subsection \<open>Process state and outcomes\<close>

text \<open>
  \<open>stdin\<close> is what is left of the input stream. A call of \<^verbatim>\<open>read(2)\<close> on a pipe or socket
  may deliver fewer bytes than were asked for although the stream holds more; \<open>read_max\<close>
  is the most that one call delivers in this run (what the pipe or socket has ready when
  the call is made). The program asks for more than one byte only once, so one number
  covers every way the system can answer.
\<close>

record proc =
  stdin :: string
  stdout :: string
  environ :: "string \<rightharpoonup> string"
  read_max :: nat

text \<open>
  A process stops by \<^verbatim>\<open>exit(status)\<close>, by a successful \<^verbatim>\<open>execve(path, args, environ)\<close>, or
  by a read of memory whose content the state above does not determine.
\<close>

datatype stop =
    Exit int
  | Exec string "string list" "string \<rightharpoonup> string"
  | Undefined

type_synonym 'a result = "(stop + 'a) \<times> proc"

subsection \<open>The C library, as far as the program uses it\<close>

text \<open>
  \<^verbatim>\<open>isdigit(ch)\<close> for a \<^verbatim>\<open>char\<close>: true for the bytes \<open>0\<close> to \<open>9\<close>. For a byte outside ASCII
  the argument is negative where \<^verbatim>\<open>char\<close> is signed; the C libraries in use answer false
  there, and so does the model.
\<close>

definition isdigit :: "char \<Rightarrow> bool" where
  "isdigit ch \<longleftrightarrow> 48 \<le> (of_char ch :: nat) \<and> (of_char ch :: nat) \<le> 57"

text \<open>The value of \<^verbatim>\<open>ch - '0'\<close>.\<close>

definition digit_val :: "char \<Rightarrow> int" where
  "digit_val ch = int (of_char ch) - 48"

text \<open>
  \<^verbatim>\<open>setenv(name, value, 1)\<close> (POSIX): fails with \<^verbatim>\<open>EINVAL\<close>, leaving the environment as it
  was, when \<open>name\<close> is the empty string or contains the character \<open>=\<close>; otherwise the entry
  for \<open>name\<close> is added or overwritten. The program never looks at the return value.
\<close>

definition setenv :: "string \<Rightarrow> string \<Rightarrow> proc \<Rightarrow> proc" where
  "setenv name val s =
     (if name = [] \<or> CHR ''='' \<in> set name then s
      else s\<lparr>environ := (environ s)(name \<mapsto> val)\<rparr>)"

definition unsetenv :: "string \<Rightarrow> proc \<Rightarrow> proc" where
  "unsetenv name s =
     (if name = [] \<or> CHR ''='' \<in> set name then s
      else s\<lparr>environ := (environ s)(name := None)\<rparr>)"

definition getenv :: "string \<Rightarrow> proc \<Rightarrow> string option" where
  "getenv name s = environ s name"

text \<open>
  \<^verbatim>\<open>strlen(buf + i)\<close> on a buffer of \<open>length buf\<close> bytes: the distance from \<open>i\<close> to the first
  NUL at or after \<open>i\<close>. When there is none inside the buffer the scan reads past its end,
  which is \<open>None\<close> here.
\<close>

fun scan_nul :: "string \<Rightarrow> nat option" where
  "scan_nul [] = None"
| "scan_nul (c # cs) = (if c = NUL then Some 0 else map_option Suc (scan_nul cs))"

definition strlen_at :: "string \<Rightarrow> nat \<Rightarrow> nat option" where
  "strlen_at buf i = scan_nul (drop i buf)"

text \<open>The C string that starts at offset \<open>i\<close> of the buffer.\<close>

definition string_at :: "string \<Rightarrow> nat \<Rightarrow> string" where
  "string_at buf i = takeWhile (\<lambda>c. c \<noteq> NUL) (drop i buf)"

text \<open>\<^verbatim>\<open>strstr(haystack, needle) != NULL\<close>.\<close>

fun strstr :: "string \<Rightarrow> string \<Rightarrow> bool" where
  "strstr [] needle = (needle = [])"
| "strstr (c # cs) needle = (prefix needle (c # cs) \<or> strstr cs needle)"

text \<open>
  \<^verbatim>\<open>strncmp(a, b, n)\<close> on C strings (the lists hold the bytes before the terminating NUL, so
  the end of a list stands for a NUL that is smaller than every byte of the other string).
  Only the sign of the result is specified by C.
\<close>

fun strncmp :: "string \<Rightarrow> string \<Rightarrow> nat \<Rightarrow> int" where
  "strncmp a b 0 = 0"
| "strncmp [] [] (Suc n) = 0"
| "strncmp [] (y # ys) (Suc n) = - 1"
| "strncmp (x # xs) [] (Suc n) = 1"
| "strncmp (x # xs) (y # ys) (Suc n) =
     (if x = y then strncmp xs ys n
      else if (of_char x :: nat) < of_char y then - 1 else 1)"

text \<open>
  \<^verbatim>\<open>printf("%x", ch)\<close> for a \<^verbatim>\<open>char\<close>: the byte is promoted to \<^verbatim>\<open>int\<close> (sign-extended where
  \<^verbatim>\<open>char\<close> is signed, as on x86) and printed as an unsigned 32-bit value.
\<close>

definition hexdigit :: "nat \<Rightarrow> char" where
  "hexdigit n = ''0123456789abcdef'' ! n"

definition fmt_x :: "char \<Rightarrow> string" where
  "fmt_x ch =
     (if 128 \<le> (of_char ch :: nat) then ''ffffff'' else []) @
     (if 16 \<le> (of_char ch :: nat) then [hexdigit (of_char ch div 16)] else []) @
     [hexdigit (of_char ch mod 16)]"

text \<open>
  \<^verbatim>\<open>read(0, buf, n)\<close>: the bytes delivered (their number is the return value) and the process
  with those bytes consumed. The call blocks until at least one byte is there, so it
  delivers nothing only at the end of the stream; it delivers at most \<open>n\<close> bytes and at
  most \<open>read_max\<close> of them.
\<close>

definition sys_read :: "nat \<Rightarrow> proc \<Rightarrow> string \<times> proc" where
  "sys_read n s =
     (take (min n (max 1 (read_max s))) (stdin s),
      s\<lparr>stdin := drop (min n (max 1 (read_max s))) (stdin s)\<rparr>)"

subsection \<open>\<^verbatim>\<open>return_error\<close>\<close>

text \<open>
  The caller passes the message already formatted. The response is written to the output
  stream and the process exits with status 1.
\<close>

definition response :: "string \<Rightarrow> string \<Rightarrow> string" where
  "response status_msg formatted_msg =
     ''Status: '' @ status_msg @ CRLF @ ''Content-Type: text/plain'' @ CRLF @ CRLF @
     formatted_msg @ CRLF"

definition return_error :: "string \<Rightarrow> string \<Rightarrow> proc \<Rightarrow> 'a result" where
  "return_error status_msg formatted_msg s =
     (Inl (Exit 1), s\<lparr>stdout := stdout s @ response status_msg formatted_msg\<rparr>)"

subsection \<open>\<^verbatim>\<open>read_char\<close>\<close>

text \<open>
  The source reads one byte into the first byte of an uninitialised \<^verbatim>\<open>int\<close> and returns
  that \<^verbatim>\<open>int\<close>, which every caller converts to \<^verbatim>\<open>char\<close>; on a little-endian machine the
  conversion gives back the byte that was read, which is what the model returns.
\<close>

definition read_char :: "proc \<Rightarrow> char result" where
  "read_char s =
     (case sys_read 1 s of
        ([ch], s') \<Rightarrow> (Inr ch, s')
      | (_, s') \<Rightarrow> return_error ''500 Internal Error'' ''SCGI stream truncated'' s')"

subsection \<open>\<^verbatim>\<open>read_scgi_environment\<close>\<close>

text \<open>
  The \<^verbatim>\<open>while (1)\<close> loop that accumulates the remaining digits of the length (lines 100 to
  114). \<open>len\<close> is at most \<open>MAX_HEADER_LENGTH\<close> on entry to every round, so the
  \<^verbatim>\<open>int\<close> arithmetic does not overflow and is written on \<open>int\<close>.
\<close>

function read_length_loop :: "int \<Rightarrow> proc \<Rightarrow> int result" where
  "read_length_loop len s =
     (case read_char s of
        (Inl e, s') \<Rightarrow> (Inl e, s')
      | (Inr ch, s') \<Rightarrow>
          if isdigit ch then
            (if len * 10 + digit_val ch < 0 \<or> len * 10 + digit_val ch > MAX_HEADER_LENGTH
             then return_error ''500 Internal Error''
                    ''SCGI Header length is not in the range 0..262144'' s'
             else read_length_loop (len * 10 + digit_val ch) s')
          else if ch = CHR '':'' then (Inr len, s')
          else return_error ''500 Invalid SCGI header''
                 (''Invalid character 0x'' @ fmt_x ch @ '' in length'') s')"
  by pat_completeness auto
termination
proof (relation "measure (\<lambda>(len, s). length (stdin s))")
  show "wf (measure (\<lambda>(len, s). length (stdin s)))" by simp
next
  fix len :: int and s x1 x2 ch
  assume "(x1, x2) = read_char s" and "x1 = Inr ch"
  then have "(Inr ch, x2) = read_char s" by simp
  then have "length (stdin x2) < length (stdin s)"
    by (cases "stdin s")
       (auto simp: read_char_def sys_read_def return_error_def split: list.splits)
  then show "((len * 10 + digit_val ch, x2), (len, s)) \<in> measure (\<lambda>(len, s). length (stdin s))"
    by simp
qed

text \<open>
  The walk over the name/value table (lines 133 to 140). \<open>headers\<close> is the buffer of
  \<open>len + 1\<close> bytes, \<open>name\<close> the offset of the \<^verbatim>\<open>name\<close> pointer in it.
\<close>

function read_table_loop :: "string \<Rightarrow> nat \<Rightarrow> nat \<Rightarrow> proc \<Rightarrow> unit result" where
  "read_table_loop headers len name s =
     (if name < len then
        (case strlen_at headers name of
           None \<Rightarrow> (Inl Undefined, s)
         | Some n \<Rightarrow>
             if name + n + 1 \<ge> len
             then return_error ''500 Internal Error''
                    ''SCGI Header: Corrupt name/value table'' s
             else
               (case strlen_at headers (name + n + 1) of
                  None \<Rightarrow> (Inl Undefined, s)
                | Some m \<Rightarrow>
                    read_table_loop headers len (name + n + 1 + m + 1)
                      (setenv (string_at headers name) (string_at headers (name + n + 1)) s)))
      else (Inr (), s))"
  by pat_completeness auto
termination
  by (relation "measure (\<lambda>(headers, len, name, s). len - name)") auto

definition read_scgi_environment :: "proc \<Rightarrow> unit result" where
  "read_scgi_environment s =
     (case read_char s of
        (Inl e, s1) \<Rightarrow> (Inl e, s1)
      | (Inr ch, s1) \<Rightarrow>
          if isdigit ch then
            (case read_length_loop (digit_val ch) s1 of
               (Inl e, s2) \<Rightarrow> (Inl e, s2)
             | (Inr len, s2) \<Rightarrow>
                 (case sys_read (nat len + 1) s2 of
                    (headers, s3) \<Rightarrow>
                      if length headers \<noteq> nat len + 1
                      then return_error ''500 Internal Error'' ''SCGI Header truncated'' s3
                      else if headers ! nat len \<noteq> CHR '',''
                      then return_error ''500 Internal Error''
                             ''SCGI Header: Incomplete netstring, missing comma'' s3
                      else if len \<noteq> 0 then read_table_loop headers (nat len) 0 s3
                      else (Inr (), s3)))
          else return_error ''500 Internal Error''
                 (''SCGI stream didn't start with a digit, started with char 0x'' @ fmt_x ch)
                 s1)"

subsection \<open>\<^verbatim>\<open>main\<close>\<close>

text \<open>
  The body of \<^verbatim>\<open>main\<close> in the order of the source, one definition per block.

  Lines 162 to 178: the script, the directory to check and the argument vector.
  \<^verbatim>\<open>strlen(argv[1]) - 1\<close> is computed in \<^verbatim>\<open>size_t\<close>: for the empty string it wraps to
  \<^verbatim>\<open>SIZE_MAX\<close>, which is \<open>- 1\<close> as a 64-bit word.
\<close>

definition last_index :: "string \<Rightarrow> 64 word" where
  "last_index a = word_of_nat (length a) - 1"

text \<open>
  A read at an index of a C string, which is an object of its bytes and the terminating
  NUL: \<open>None\<close> when the index is outside the object.
\<close>

definition char_at :: "string \<Rightarrow> 64 word \<Rightarrow> char option" where
  "char_at a i =
     (if unat i < length a then Some (a ! unat i)
      else if unat i = length a then Some NUL
      else None)"

text \<open>
  What the program reads at \<^verbatim>\<open>argv[j][i]\<close>. The argument strings lie one after another in
  the argument area of the process, each followed by its NUL (the layout the kernel gives
  them on Linux and the BSDs), and \<^verbatim>\<open>argv[j]\<close> points to the start of the \<open>j\<close>-th one. The
  address of the read is that pointer plus \<open>i\<close> modulo \<open>2 ^ 64\<close>: for \<open>i = - 1\<close> the
  byte just before the string, otherwise the byte \<open>i\<close> places after its start. A read
  outside the area is \<open>None\<close>.
\<close>

definition arg_area :: "string list \<Rightarrow> string" where
  "arg_area argv = concat (map (\<lambda>a. a @ [NUL]) argv)"

definition arg_start :: "string list \<Rightarrow> nat \<Rightarrow> nat" where
  "arg_start argv j = length (arg_area (take j argv))"

definition arg_read :: "string list \<Rightarrow> nat \<Rightarrow> 64 word \<Rightarrow> char option" where
  "arg_read argv j i =
     (if i = - 1 then
        (if 0 < arg_start argv j then Some (arg_area argv ! (arg_start argv j - 1)) else None)
      else if arg_start argv j + unat i < length (arg_area argv)
      then Some (arg_area argv ! (arg_start argv j + unat i))
      else None)"

definition resolve_path ::
  "string list \<Rightarrow> proc \<Rightarrow> (string \<times> string option \<times> string list) result" where
  "resolve_path argv s =
     (case
        (if length argv > 1 then
           (case arg_read argv 1 (last_index (argv ! 1)) of
              None \<Rightarrow> None
            | Some ch \<Rightarrow>
                if ch = CHR ''/''
                then Some (getenv ''SCRIPT_FILENAME'' s, Some (argv ! 1),
                           (case getenv ''SCRIPT_FILENAME'' s of
                              None \<Rightarrow> [] | Some f \<Rightarrow> [f]))
                else Some (Some (argv ! 1), None, drop 1 argv))
         else Some (getenv ''SCRIPT_FILENAME'' s, None,
                    (case getenv ''SCRIPT_FILENAME'' s of None \<Rightarrow> [] | Some f \<Rightarrow> [f])))
      of
        None \<Rightarrow> (Inl Undefined, s)
      | Some (None, check_directory, exec_args) \<Rightarrow>
          return_error ''500 Internal Error'' ''CGI environment missing SCRIPT_FILENAME'' s
      | Some (Some script_filename, check_directory, exec_args) \<Rightarrow>
          (Inr (script_filename, check_directory, exec_args), s))"

text \<open>Lines 180 to 190: the two checks on the script's path.\<close>

definition validate_path :: "string \<Rightarrow> string option \<Rightarrow> proc \<Rightarrow> unit result" where
  "validate_path script_filename check_directory s =
     (if strstr script_filename ''../''
      then return_error ''500 Internal Error''
             (''SCRIPT_FILENAME should not include '' @ [CHR 0x22] @ ''../'' @ [CHR 0x22]) s
      else
        (case check_directory of
           None \<Rightarrow> (Inr (), s)
         | Some dir \<Rightarrow>
             if strncmp dir script_filename (length dir) \<noteq> 0
             then return_error ''500 Internal Error''
                    (''['' @ script_filename @ ''] doesn't reside under ['' @ dir @ '']'') s
             else (Inr (), s)))"

text \<open>
  Lines 192 to 200. What \<^verbatim>\<open>execve\<close> does is the operating system's part: \<open>execve\<close> gives
  \<open>None\<close> when the image is replaced and the value of \<^verbatim>\<open>errno\<close> when the call returns;
  \<open>strerror\<close> is the system's text for an error number.
\<close>

definition dispatch ::
  "(string \<Rightarrow> string list \<Rightarrow> (string \<rightharpoonup> string) \<Rightarrow> nat option) \<Rightarrow> (nat \<Rightarrow> string) \<Rightarrow>
   string \<Rightarrow> string list \<Rightarrow> proc \<Rightarrow> unit result" where
  "dispatch execve strerror script_filename exec_args s =
     (case execve script_filename exec_args (environ s) of
        None \<Rightarrow> (Inl (Exec script_filename exec_args (environ s)), s)
      | Some errno \<Rightarrow>
          if errno = ENOENT
          then return_error ''404 Not Found'' (''Can't locate CGI script'' @ LF) s
          else return_error ''500 Internal Error''
                 (''Unable to execute CGI script, please contact the system administrator'' @
                  LF @ strerror errno @ LF) s)"

definition main ::
  "(string \<Rightarrow> string list \<Rightarrow> (string \<rightharpoonup> string) \<Rightarrow> nat option) \<Rightarrow> (nat \<Rightarrow> string) \<Rightarrow>
   string list \<Rightarrow> proc \<Rightarrow> unit result" where
  "main execve strerror argv s =
     (case read_scgi_environment s of
        (Inl e, s1) \<Rightarrow> (Inl e, s1)
      | (Inr _, s1) \<Rightarrow>
          (case resolve_path argv
                  (setenv ''GATEWAY_INTERFACE'' ''CGI/1.1'' (unsetenv ''SCGI'' s1)) of
             (Inl e, s2) \<Rightarrow> (Inl e, s2)
           | (Inr (script_filename, check_directory, exec_args), s2) \<Rightarrow>
               (case validate_path script_filename check_directory s2 of
                  (Inl e, s3) \<Rightarrow> (Inl e, s3)
                | (Inr _, s3) \<Rightarrow> dispatch execve strerror script_filename exec_args s3)))"

subsection \<open>Notions used to state the properties\<close>

text \<open>
  The value of a string of decimal digits, read the way the program accumulates it:
  \<open>decimal_from acc ds\<close> continues from the value \<open>acc\<close> of the digits already read.
\<close>

definition decimal_from :: "int \<Rightarrow> string \<Rightarrow> int" where
  "decimal_from acc ds = foldl (\<lambda>a c. a * 10 + digit_val c) acc ds"

definition decimal :: "string \<Rightarrow> int" where
  "decimal ds = decimal_from 0 ds"

text \<open>
  A run is a string without NUL; a payload made of complete NUL-terminated runs is
  \<open>encode_runs runs\<close>, and \<open>pairs_of\<close> reads the runs as name, value, name, value, ...
\<close>

definition nul_free :: "string \<Rightarrow> bool" where
  "nul_free r \<longleftrightarrow> NUL \<notin> set r"

definition encode_runs :: "string list \<Rightarrow> string" where
  "encode_runs runs = concat (map (\<lambda>r. r @ [NUL]) runs)"

fun pairs_of :: "string list \<Rightarrow> (string \<times> string) list" where
  "pairs_of (n # v # runs) = (n, v) # pairs_of runs"
| "pairs_of _ = []"

text \<open>The calls \<^verbatim>\<open>setenv(name, value, 1)\<close> for a list of pairs, in the order of the list.\<close>

definition setenv_all :: "(string \<times> string) list \<Rightarrow> proc \<Rightarrow> proc" where
  "setenv_all ps s = foldl (\<lambda>s (n, v). setenv n v s) s ps"

text \<open>The names that \<^verbatim>\<open>setenv\<close> accepts.\<close>

definition env_name_ok :: "string \<Rightarrow> bool" where
  "env_name_ok name \<longleftrightarrow> name \<noteq> [] \<and> CHR ''='' \<notin> set name"

text \<open>
  What a stage of the pipeline before the dispatcher may do to the output stream, given the
  output \<open>out\<close> written before it ran: it either exits with status 1 after appending one
  response, or writes nothing. It never replaces the process image.
\<close>

definition reports :: "string \<Rightarrow> 'a result \<Rightarrow> bool" where
  "reports out r \<longleftrightarrow>
     (case fst r of
        Inl (Exit n) \<Rightarrow>
          n = 1 \<and>
          (\<exists>status msg.
             status \<in> {''500 Internal Error'', ''500 Invalid SCGI header'', ''404 Not Found''} \<and>
             stdout (snd r) = out @ response status msg)
      | Inl (Exec p a e) \<Rightarrow> False
      | Inl Undefined \<Rightarrow> stdout (snd r) = out
      | Inr x \<Rightarrow> stdout (snd r) = out)"

text \<open>
  The same for the whole program, which in addition may end in \<^verbatim>\<open>execve\<close> with the
  environment of that moment, and never returns.
\<close>

definition reports_or_exec :: "string \<Rightarrow> 'a result \<Rightarrow> bool" where
  "reports_or_exec out r \<longleftrightarrow>
     (case fst r of
        Inl (Exit n) \<Rightarrow>
          n = 1 \<and>
          (\<exists>status msg.
             status \<in> {''500 Internal Error'', ''500 Invalid SCGI header'', ''404 Not Found''} \<and>
             stdout (snd r) = out @ response status msg)
      | Inl (Exec p a e) \<Rightarrow> stdout (snd r) = out \<and> e = environ (snd r)
      | Inl Undefined \<Rightarrow> stdout (snd r) = out
      | Inr x \<Rightarrow> False)"

section \<open>Lemmas\<close>

subsection \<open>Reading the length\<close>

lemma read_char_Nil: "stdin s = [] \<Longrightarrow> read_char s = return_error ''500 Internal Error'' ''SCGI stream truncated'' s"
  by (cases s) (simp add: read_char_def sys_read_def)

lemma read_char_Cons: "stdin s = c # cs \<Longrightarrow> read_char s = (Inr c, s\<lparr>stdin := cs\<rparr>)"
  by (simp add: read_char_def sys_read_def)

declare read_length_loop.simps [simp del]
declare read_table_loop.simps [simp del]

lemma digit_val_range: "isdigit c \<Longrightarrow> 0 \<le> digit_val c \<and> digit_val c \<le> 9"
  by (auto simp: isdigit_def digit_val_def)

lemma decimal_from_mono: "list_all isdigit ds \<Longrightarrow> 0 \<le> acc \<Longrightarrow> acc \<le> decimal_from acc ds"
proof (induction ds arbitrary: acc)
  case Nil then show ?case by (simp add: decimal_from_def)
next
  case (Cons d ds)
  from Cons.prems have d: "0 \<le> digit_val d" using digit_val_range by simp
  with Cons.prems have "0 \<le> acc * 10 + digit_val d" by simp
  with Cons.IH [of "acc * 10 + digit_val d"] Cons.prems
  have "acc * 10 + digit_val d \<le> decimal_from (acc * 10 + digit_val d) ds" by simp
  with d Cons.prems show ?case by (simp add: decimal_from_def)
qed

lemma colon_not_digit: "\<not> isdigit (CHR '':'')"
  by (simp add: isdigit_def)

lemma read_length_loop_ok:
  "list_all isdigit ds \<Longrightarrow> 0 \<le> acc \<Longrightarrow> decimal_from acc ds \<le> MAX_HEADER_LENGTH \<Longrightarrow>
   stdin s = ds @ CHR '':'' # rest \<Longrightarrow>
   read_length_loop acc s = (Inr (decimal_from acc ds), s\<lparr>stdin := rest\<rparr>)"
proof (induction ds arbitrary: acc s)
  case Nil
  then show ?case
    by (subst read_length_loop.simps) (simp add: read_char_Cons colon_not_digit decimal_from_def)
next
  case (Cons d ds)
  let ?a = "acc * 10 + digit_val d"
  from Cons.prems have d: "isdigit d" "0 \<le> digit_val d" using digit_val_range by simp_all
  with Cons.prems have a0: "0 \<le> ?a" by simp
  have dec: "decimal_from acc (d # ds) = decimal_from ?a ds" by (simp add: decimal_from_def)
  from Cons.prems have "list_all isdigit ds" by simp
  from decimal_from_mono [OF this a0] Cons.prems dec have a1: "?a \<le> MAX_HEADER_LENGTH" by simp
  have "read_length_loop acc s = read_length_loop ?a (s\<lparr>stdin := ds @ CHR '':'' # rest\<rparr>)"
    using Cons.prems d a0 a1 by (subst read_length_loop.simps) (simp add: read_char_Cons)
  also have "\<dots> = (Inr (decimal_from ?a ds), s\<lparr>stdin := rest\<rparr>)"
    using Cons.IH [of ?a "s\<lparr>stdin := ds @ CHR '':'' # rest\<rparr>"] Cons.prems a0 dec by simp
  finally show ?case using dec by simp
qed

lemma read_length_loop_big:
  "list_all isdigit ds \<Longrightarrow> 0 \<le> acc \<Longrightarrow> MAX_HEADER_LENGTH < decimal_from acc ds \<Longrightarrow>
   acc \<le> MAX_HEADER_LENGTH \<Longrightarrow> stdin s = ds @ rest \<Longrightarrow>
   \<exists>k < length ds. read_length_loop acc s =
     return_error ''500 Internal Error'' ''SCGI Header length is not in the range 0..262144''
       (s\<lparr>stdin := drop (Suc k) ds @ rest\<rparr>)"
proof (induction ds arbitrary: acc s)
  case Nil
  then show ?case by (simp add: decimal_from_def)
next
  case (Cons d ds)
  let ?a = "acc * 10 + digit_val d"
  let ?s = "s\<lparr>stdin := ds @ rest\<rparr>"
  from Cons.prems have d: "isdigit d" "0 \<le> digit_val d" using digit_val_range by simp_all
  with Cons.prems have a0: "0 \<le> ?a" by simp
  have dec: "decimal_from acc (d # ds) = decimal_from ?a ds" by (simp add: decimal_from_def)
  show ?case
  proof (cases "?a \<le> MAX_HEADER_LENGTH")
    case True
    have step: "read_length_loop acc s = read_length_loop ?a ?s"
      using Cons.prems d a0 True by (subst read_length_loop.simps) (simp add: read_char_Cons)
    from Cons.IH [of ?a ?s] Cons.prems a0 True dec
    obtain k where "k < length ds" and 
      "read_length_loop ?a ?s = return_error ''500 Internal Error'' ''SCGI Header length is not in the range 0..262144''
       (?s\<lparr>stdin := drop (Suc k) ds @ rest\<rparr>)" by auto
    with step have "Suc k < length (d # ds) \<and> read_length_loop acc s = return_error ''500 Internal Error'' ''SCGI Header length is not in the range 0..262144''
       (s\<lparr>stdin := drop (Suc (Suc k)) (d # ds) @ rest\<rparr>)" by simp
    then show ?thesis by blast
  next
    case False
    have "read_length_loop acc s = return_error ''500 Internal Error'' ''SCGI Header length is not in the range 0..262144'' ?s"
      using Cons.prems d False by (subst read_length_loop.simps) (simp add: read_char_Cons)
    then have "0 < length (d # ds) \<and> read_length_loop acc s = return_error ''500 Internal Error'' ''SCGI Header length is not in the range 0..262144''
       (s\<lparr>stdin := drop (Suc 0) (d # ds) @ rest\<rparr>)" by simp
    then show ?thesis by blast
  qed
qed

subsection \<open>Walking a table of complete runs\<close>

lemma scan_nul_run: "nul_free n \<Longrightarrow> scan_nul (n @ NUL # rest) = Some (length n)"
  by (induction n) (auto simp: nul_free_def)

lemma strlen_at_run:
  "nul_free n \<Longrightarrow> strlen_at (pre @ n @ NUL # rest) (length pre) = Some (length n)"
  by (simp add: strlen_at_def scan_nul_run)

lemma string_at_run:
  "nul_free n \<Longrightarrow> string_at (pre @ n @ NUL # rest) (length pre) = n"
proof -
  have "takeWhile (\<lambda>c. c \<noteq> NUL) (n @ NUL # rest) = n" if "nul_free n"
    using that by (induction n) (auto simp: nul_free_def)
  then show "nul_free n \<Longrightarrow> ?thesis" by (simp add: string_at_def)
qed

lemma encode_runs_Cons [simp]: "encode_runs (r # runs) = r @ NUL # encode_runs runs"
  by (simp add: encode_runs_def)

lemma encode_runs_Nil [simp]: "encode_runs [] = []"
  by (simp add: encode_runs_def)

lemma encode_runs_append [simp]: "encode_runs (xs @ ys) = encode_runs xs @ encode_runs ys"
  by (simp add: encode_runs_def)

lemma setenv_all_Nil [simp]: "setenv_all [] s = s"
  by (simp add: setenv_all_def)

lemma setenv_all_Cons [simp]: "setenv_all ((n, v) # ps) s = setenv_all ps (setenv n v s)"
  by (simp add: setenv_all_def)

lemma read_table_loop_done: "len \<le> name \<Longrightarrow> read_table_loop headers len name s = (Inr (), s)"
  by (subst read_table_loop.simps) simp

lemma read_table_loop_pair:
  assumes "nul_free n" "nul_free v"
    and "length pre + length n + 1 < len"
  shows "read_table_loop (pre @ n @ NUL # v @ NUL # rest) len (length pre) s =
         read_table_loop (pre @ n @ NUL # v @ NUL # rest) len
           (length pre + length n + 1 + length v + 1) (setenv n v s)"
proof -
  let ?h = "pre @ n @ NUL # v @ NUL # rest"
  have 1: "strlen_at ?h (length pre) = Some (length n)"
    using assms(1) by (rule strlen_at_run)
  have 2: "string_at ?h (length pre) = n"
    using assms(1) by (rule string_at_run)
  have h: "?h = (pre @ n @ [NUL]) @ v @ NUL # rest" by simp
  have 3: "strlen_at ?h (length pre + length n + 1) = Some (length v)"
    using strlen_at_run [OF assms(2), of "pre @ n @ [NUL]" rest] by simp
  have 4: "string_at ?h (length pre + length n + 1) = v"
    using string_at_run [OF assms(2), of "pre @ n @ [NUL]" rest] by simp
  show ?thesis
    using assms(3) by (subst read_table_loop.simps) (simp only: 1 2 3 4 option.case, simp)
qed

lemma read_table_loop_name_only:
  assumes "nul_free n" "length pre < len" "len \<le> length pre + length n + 1"
  shows "read_table_loop (pre @ n @ NUL # rest) len (length pre) s =
         return_error ''500 Internal Error'' ''SCGI Header: Corrupt name/value table'' s"
proof -
  have 1: "strlen_at (pre @ n @ NUL # rest) (length pre) = Some (length n)"
    using assms(1) by (rule strlen_at_run)
  show ?thesis
    using assms(2,3) by (subst read_table_loop.simps) (simp only: 1 option.case, simp)
qed

lemma read_table_loop_runs:
  "list_all nul_free runs \<Longrightarrow> even (length runs) \<Longrightarrow>
   length pre + length (encode_runs runs) \<le> len \<Longrightarrow>
   read_table_loop (pre @ encode_runs runs @ rest) len (length pre) s =
   read_table_loop (pre @ encode_runs runs @ rest) len (length pre + length (encode_runs runs))
     (setenv_all (pairs_of runs) s)"
proof (induction runs arbitrary: pre s rule: pairs_of.induct)
  case (1 n v runs)
  let ?pre = "pre @ n @ NUL # v @ [NUL]"
  let ?h = "pre @ encode_runs (n # v # runs) @ rest"
  have h: "?h = ?pre @ encode_runs runs @ rest" by simp
  have h2: "?h = pre @ n @ NUL # v @ NUL # (encode_runs runs @ rest)" by simp
  from "1.prems" have nf: "nul_free n" "nul_free v" by simp_all
  from "1.prems" have lt: "length pre + length n + 1 < len" by simp
  have "read_table_loop ?h len (length pre) s =
        read_table_loop ?h len (length ?pre) (setenv n v s)"
    unfolding h2 using read_table_loop_pair [OF nf lt, of "encode_runs runs @ rest" s]
    by (simp add: ac_simps)
  also have "\<dots> = read_table_loop ?h len (length ?pre + length (encode_runs runs))
                    (setenv_all (pairs_of runs) (setenv n v s))"
    unfolding h using "1.IH" [of ?pre "setenv n v s"] "1.prems" by simp
  finally show ?case by (simp add: ac_simps)
qed simp_all

lemma read_table_loop_even:
  assumes "list_all nul_free runs" "even (length runs)"
  shows "read_table_loop (encode_runs runs @ rest) (length (encode_runs runs)) 0 s =
         (Inr (), setenv_all (pairs_of runs) s)"
  using read_table_loop_runs [OF assms, of "[]" "length (encode_runs runs)" rest s]
  by (simp add: read_table_loop_done)

lemma read_table_loop_odd:
  assumes "list_all nul_free runs" "even (length runs)" "nul_free r"
  shows "read_table_loop (encode_runs (runs @ [r]) @ rest) (length (encode_runs (runs @ [r]))) 0 s =
         return_error ''500 Internal Error'' ''SCGI Header: Corrupt name/value table''
           (setenv_all (pairs_of runs) s)"
proof -
  let ?len = "length (encode_runs (runs @ [r]))"
  have "read_table_loop (encode_runs (runs @ [r]) @ rest) ?len 0 s =
        read_table_loop ([] @ encode_runs runs @ (r @ NUL # rest)) ?len (length ([]::string)) s"
    by simp
  also have "\<dots> = read_table_loop ([] @ encode_runs runs @ (r @ NUL # rest)) ?len
                     (length ([]::string) + length (encode_runs runs)) (setenv_all (pairs_of runs) s)"
    using assms by (intro read_table_loop_runs) simp_all
  also have "\<dots> = read_table_loop (encode_runs runs @ r @ NUL # rest) ?len
                     (length (encode_runs runs)) (setenv_all (pairs_of runs) s)"
    by simp
  also have "\<dots> = return_error ''500 Internal Error'' ''SCGI Header: Corrupt name/value table''
           (setenv_all (pairs_of runs) s)"
    using assms(3) by (intro read_table_loop_name_only) simp_all
  finally show ?thesis .
qed

subsection \<open>The environment after the walk\<close>

lemma setenv_stdin [simp]: "stdin (setenv n v s) = stdin s"
  and setenv_stdout [simp]: "stdout (setenv n v s) = stdout s"
  by (simp_all add: setenv_def)

lemma setenv_environ:
  "environ (setenv n v s) = (if env_name_ok n then (environ s)(n \<mapsto> v) else environ s)"
  by (simp add: setenv_def env_name_ok_def)

lemma setenv_update_stdin: "setenv n v (s\<lparr>stdin := x\<rparr>) = (setenv n v s)\<lparr>stdin := x\<rparr>"
  by (simp add: setenv_def)

lemma setenv_all_stdin [simp]: "stdin (setenv_all ps s) = stdin s"
  by (induction ps arbitrary: s) auto

lemma setenv_all_stdout [simp]: "stdout (setenv_all ps s) = stdout s"
  by (induction ps arbitrary: s) auto

lemma setenv_all_update_stdin:
  "setenv_all ps (s\<lparr>stdin := x\<rparr>) = (setenv_all ps s)\<lparr>stdin := x\<rparr>"
  by (induction ps arbitrary: s) (auto simp: setenv_update_stdin)

lemma setenv_all_environ:
  "environ (setenv_all ps s) =
   environ s ++ map_of (rev (filter (\<lambda>(n, v). env_name_ok n) ps))"
proof (induction ps arbitrary: s)
  case Nil
  then show ?case by simp
next
  case (Cons p ps)
  obtain n v where p: "p = (n, v)" by (cases p)
  show ?case
  proof (cases "env_name_ok n")
    case True
    have "environ (setenv_all (p # ps) s) =
          (environ s)(n \<mapsto> v) ++ map_of (rev (filter (\<lambda>(n, v). env_name_ok n) ps))"
      using Cons.IH [of "setenv n v s"] True by (simp only: p setenv_all_Cons setenv_environ if_True)
    also have "\<dots> = environ s ++ map_of (rev (filter (\<lambda>(n, v). env_name_ok n) ps) @ [(n, v)])"
      by (rule ext) (simp add: map_add_def split: option.splits)
    finally show ?thesis using True by (simp add: p)
  next
    case False
    then show ?thesis using Cons.IH [of "setenv n v s"] by (simp add: p setenv_environ)
  qed
qed

lemma length_encode_runs_pos: "runs \<noteq> [] \<Longrightarrow> 0 < length (encode_runs runs)"
  by (cases runs) simp_all

lemma read_scgi_environment_wf:
  assumes ds: "ds \<noteq> []" "list_all isdigit ds"
    and len: "decimal ds = int (length (encode_runs runs))"
    and max: "int (length (encode_runs runs)) \<le> MAX_HEADER_LENGTH"
    and runs: "list_all nul_free runs" "even (length runs)"
    and inp: "stdin s = ds @ CHR '':'' # encode_runs runs @ CHR '','' # body"
    and full: "length (encode_runs runs) + 1 \<le> max 1 (read_max s)"
  shows "read_scgi_environment s = (Inr (), (setenv_all (pairs_of runs) s)\<lparr>stdin := body\<rparr>)"
proof -
  let ?p = "encode_runs runs"
  let ?L = "length ?p"
  obtain d ds' where dd: "ds = d # ds'" using ds(1) by (cases ds) auto
  let ?s1 = "s\<lparr>stdin := ds' @ CHR '':'' # ?p @ CHR '','' # body\<rparr>"
  let ?s2 = "s\<lparr>stdin := ?p @ CHR '','' # body\<rparr>"
  let ?s3 = "s\<lparr>stdin := body\<rparr>"
  have d: "isdigit d" "list_all isdigit ds'" using ds(2) dd by simp_all
  have d0: "0 \<le> digit_val d" using digit_val_range [OF d(1)] by simp
  have dec: "decimal_from (digit_val d) ds' = int ?L"
    using len by (simp add: decimal_def decimal_from_def dd)
  have rc: "read_char s = (Inr d, ?s1)"
    using inp dd by (simp add: read_char_Cons)
  have rl: "read_length_loop (digit_val d) ?s1 = (Inr (int ?L), ?s2)"
    using read_length_loop_ok [OF d(2) d0, of ?s1 "?p @ CHR '','' # body"] dec max by simp
  have rd: "sys_read (?L + 1) ?s2 = (?p @ [CHR '',''], ?s3)"
    using full by (simp add: sys_read_def min_absorb1)
  have tbl: "read_table_loop (?p @ [CHR '','']) ?L 0 ?s3 = (Inr (), setenv_all (pairs_of runs) ?s3)"
    using runs by (rule read_table_loop_even)
  have empty: "?L = 0 \<Longrightarrow> pairs_of runs = []"
    using length_encode_runs_pos [of runs] by (cases runs) auto
  have "read_scgi_environment s = (Inr (), setenv_all (pairs_of runs) ?s3)"
    unfolding read_scgi_environment_def rc
    by (simp add: d(1) rl rd tbl nth_append empty del: One_nat_def)
  then show ?thesis by (simp add: setenv_all_update_stdin)
qed

subsection \<open>The checks on the path\<close>






subsection \<open>Where the scans for NUL end\<close>

lemma scan_nul_le:
  "k < length xs \<Longrightarrow> xs ! k = NUL \<Longrightarrow> \<exists>n\<le>k. scan_nul xs = Some n"
proof (induction xs arbitrary: k)
  case Nil then show ?case by simp
next
  case (Cons x xs)
  show ?case
  proof (cases "x = NUL")
    case True then show ?thesis by simp
  next
    case False
    with Cons.prems obtain k' where k: "k = Suc k'" by (cases k) auto
    with Cons.prems have "k' < length xs" "xs ! k' = NUL" by simp_all
    from Cons.IH [OF this] obtain n where "n \<le> k'" "scan_nul xs = Some n" by blast
    with False k show ?thesis by simp
  qed
qed

lemma scan_nul_Some:
  "scan_nul xs = Some n \<Longrightarrow> n < length xs \<and> xs ! n = NUL"
proof (induction xs arbitrary: n)
  case Nil then show ?case by simp
next
  case (Cons x xs)
  then show ?case by (cases "x = NUL") auto
qed

lemma strlen_at_le:
  assumes "i \<le> j" "j < length buf" "buf ! j = NUL"
  shows "\<exists>n. strlen_at buf i = Some n \<and> i + n \<le> j"
proof -
  have "j - i < length (drop i buf)" "drop i buf ! (j - i) = NUL"
    using assms by simp_all
  from scan_nul_le [OF this] obtain n where "n \<le> j - i" "scan_nul (drop i buf) = Some n"
    by blast
  with assms(1) show ?thesis by (auto simp: strlen_at_def)
qed

lemma strlen_at_Some:
  assumes "strlen_at buf i = Some n"
  shows "i + n < length buf \<and> buf ! (i + n) = NUL"
proof -
  from scan_nul_Some [OF assms [unfolded strlen_at_def]]
  have "n < length (drop i buf)" "drop i buf ! n = NUL" by simp_all
  then show ?thesis by auto
qed

lemma read_table_loop_defined:
  assumes "payload \<noteq> []" "last payload = NUL"
  shows "fst (read_table_loop (payload @ [CHR '','']) (length payload) name s) \<noteq> Inl Undefined"
proof (induction "payload @ [CHR '','']" "length payload" name s rule: read_table_loop.induct)
  case (1 name s)
  let ?h = "payload @ [CHR '','']"
  let ?L = "length payload"
  have nul: "?L - 1 < length ?h" "?h ! (?L - 1) = NUL"
    using assms by (simp_all add: nth_append last_conv_nth)
  show ?case
  proof (cases "name < ?L")
    case False
    then show ?thesis by (simp add: read_table_loop_done)
  next
    case True
    then have "name \<le> ?L - 1" by simp
    from strlen_at_le [OF this nul] obtain n where
      n: "strlen_at ?h name = Some n" "name + n \<le> ?L - 1" by blast
    show ?thesis
    proof (cases "?L \<le> name + n + 1")
      case True
      with \<open>name < ?L\<close> n show ?thesis
        by (subst read_table_loop.simps) (simp add: return_error_def)
    next
      case False
      then have "name + n + 1 \<le> ?L - 1" by simp
      from strlen_at_le [OF this nul] obtain m where
        m: "strlen_at ?h (name + n + 1) = Some m" by blast
      from "1.hyps" [OF \<open>name < ?L\<close> n(1) False m]
      show ?thesis
        using \<open>name < ?L\<close> n m False by (subst read_table_loop.simps) simp
    qed
  qed
qed

lemma read_table_loop_overrun:
  assumes "payload \<noteq> []" "last payload \<noteq> NUL"
  shows "name < length payload \<Longrightarrow>
         fst (read_table_loop (payload @ [CHR '','']) (length payload) name s) = Inl Undefined"
proof (induction "payload @ [CHR '','']" "length payload" name s rule: read_table_loop.induct)
  case (1 name s)
  let ?h = "payload @ [CHR '','']"
  let ?L = "length payload"
  have nonnul: "?h ! k \<noteq> NUL" if "?L - 1 \<le> k" "k < length ?h" for k
  proof (cases "k = ?L")
    case True then show ?thesis by (simp add: NUL_def)
  next
    case False
    with that have "k = ?L - 1" by simp
    with assms show ?thesis by (simp add: nth_append last_conv_nth)
  qed
  have bound: "i + n < ?L - 1" if "strlen_at ?h i = Some n" for i n
  proof -
    from strlen_at_Some [OF that] have "i + n < length ?h" "?h ! (i + n) = NUL" by simp_all
    with nonnul [of "i + n"] show ?thesis by (cases "?L - 1 \<le> i + n") auto
  qed
  show ?case
  proof (cases "strlen_at ?h name")
    case None
    with "1.prems" show ?thesis by (subst read_table_loop.simps) simp
  next
    case (Some n)
    from bound [OF Some] have v: "\<not> ?L \<le> name + n + 1" by simp
    show ?thesis
    proof (cases "strlen_at ?h (name + n + 1)")
      case None
      with "1.prems" Some v show ?thesis by (subst read_table_loop.simps) simp
    next
      case (Some m)
      from bound [OF Some] have "name + n + 1 + m + 1 < ?L" by simp
      from "1.hyps" [OF "1.prems" \<open>strlen_at ?h name = Some n\<close> v Some this]
      show ?thesis
        using "1.prems" \<open>strlen_at ?h name = Some n\<close> v Some
        by (subst read_table_loop.simps) simp
    qed
  qed
qed

subsection \<open>Every stage reports its failure once\<close>

lemma reports_return_error:
  "status \<in> {''500 Internal Error'', ''500 Invalid SCGI header'', ''404 Not Found''} \<Longrightarrow>
   out = stdout s \<Longrightarrow> reports out (return_error status msg s)"
  by (auto simp: reports_def return_error_def)

lemma reports_Inr: "stdout s' = out \<Longrightarrow> reports out (Inr x, s')"
  by (simp add: reports_def)

lemma reports_Undefined: "stdout s' = out \<Longrightarrow> reports out (Inl Undefined, s')"
  by (simp add: reports_def)

lemma reports_InrD: "reports out (Inr x, s') \<Longrightarrow> stdout s' = out"
  by (simp add: reports_def)

lemma reports_Inl:
  "reports out ((Inl e, s') :: 'a result) \<Longrightarrow> reports out ((Inl e, s') :: 'b result)"
  by (cases e) (simp_all add: reports_def)

lemma reports_read_char: "reports (stdout s) (read_char s)"
  by (cases "stdin s") (simp_all add: read_char_Nil read_char_Cons reports_return_error reports_Inr)

lemma reports_read_length_loop: "reports (stdout s) (read_length_loop len s)"
proof (induction len s rule: read_length_loop.induct)
  case (1 len s)
  obtain r s' where rc: "read_char s = (r, s')" by (cases "read_char s")
  with reports_read_char [of s] have rep: "reports (stdout s) (r, s')" by simp
  show ?case
  proof (cases r)
    case (Inl e)
    with rc rep show ?thesis by (subst read_length_loop.simps) (auto intro: reports_Inl)
  next
    case (Inr ch)
    with rep have out: "stdout s' = stdout s" by (simp add: reports_def)
    show ?thesis
    proof (cases "isdigit ch")
      case True
      show ?thesis
      proof (cases "len * 10 + digit_val ch < 0 \<or> len * 10 + digit_val ch > MAX_HEADER_LENGTH")
        case True
        with rc Inr \<open>isdigit ch\<close> out show ?thesis
          by (subst read_length_loop.simps) (simp add: reports_return_error)
      next
        case False
        from "1.IH" [OF rc [symmetric] Inr \<open>isdigit ch\<close> False] out
        have "reports (stdout s) (read_length_loop (len * 10 + digit_val ch) s')" by simp
        with rc Inr \<open>isdigit ch\<close> False show ?thesis
          by (subst read_length_loop.simps) simp
      qed
    next
      case False
      with rc Inr out show ?thesis
        by (subst read_length_loop.simps) (simp add: reports_return_error reports_Inr)
    qed
  qed
qed

lemma read_table_loop_keeps:
  "reports (stdout s) (read_table_loop headers len name s) \<and>
   stdin (snd (read_table_loop headers len name s)) = stdin s"
proof (induction headers len name s rule: read_table_loop.induct)
  case (1 headers len name s)
  show ?case
  proof (cases "name < len")
    case False
    then show ?thesis by (simp add: read_table_loop_done reports_Inr)
  next
    case True
    show ?thesis
    proof (cases "strlen_at headers name")
      case None
      with True show ?thesis by (subst (1 2) read_table_loop.simps) (simp add: reports_Undefined)
    next
      case (Some n)
      show ?thesis
      proof (cases "len \<le> name + n + 1")
        case True
        with \<open>name < len\<close> Some show ?thesis
          by (subst (1 2) read_table_loop.simps)
             (simp add: reports_return_error, simp add: return_error_def)
      next
        case False
        show ?thesis
        proof (cases "strlen_at headers (name + n + 1)")
          case None
          with \<open>name < len\<close> Some False show ?thesis
            by (subst (1 2) read_table_loop.simps) (simp add: reports_Undefined)
        next
          case (Some m)
          from "1.IH" [OF True \<open>strlen_at headers name = Some n\<close> False Some]
          show ?thesis
            using True \<open>strlen_at headers name = Some n\<close> False Some
            by (subst (1 2) read_table_loop.simps) simp
        qed
      qed
    qed
  qed
qed

lemma reports_read_scgi_environment: "reports (stdout s) (read_scgi_environment s)"
proof -
  obtain r s1 where rc: "read_char s = (r, s1)" by (cases "read_char s")
  with reports_read_char [of s] have rep: "reports (stdout s) (r, s1)" by simp
  show ?thesis
  proof (cases r)
    case (Inl e)
    with rc rep show ?thesis by (auto simp: read_scgi_environment_def intro: reports_Inl)
  next
    case (Inr ch)
    with rep have out1: "stdout s1 = stdout s" by (simp add: reports_def)
    show ?thesis
    proof (cases "isdigit ch")
      case False
      with rc Inr out1 show ?thesis
        by (simp add: read_scgi_environment_def reports_return_error)
    next
      case True
      obtain r2 s2 where rl: "read_length_loop (digit_val ch) s1 = (r2, s2)"
        by (cases "read_length_loop (digit_val ch) s1")
      with reports_read_length_loop [of s1 "digit_val ch"] out1
      have rep2: "reports (stdout s) (r2, s2)" by simp
      show ?thesis
      proof (cases r2)
        case (Inl e)
        with rc \<open>r = Inr ch\<close> True rl rep2 show ?thesis
          by (auto simp: read_scgi_environment_def intro: reports_Inl)
      next
        case (Inr len)
        with rep2 have out2: "stdout s2 = stdout s" by (simp add: reports_def)
        let ?s3 = "s2\<lparr>stdin := drop (nat len + 1) (stdin s2)\<rparr>"
        have out3: "stdout ?s3 = stdout s" using out2 by simp
        have "reports (stdout s) (read_table_loop (take (nat len + 1) (stdin s2)) (nat len) 0 ?s3)"
          using read_table_loop_keeps [of ?s3] out3 by simp
        with rc \<open>r = Inr ch\<close> True rl Inr out3 show ?thesis
          by (simp add: read_scgi_environment_def sys_read_def reports_return_error reports_Inr
                   del: One_nat_def)
      qed
    qed
  qed
qed

lemma unsetenv_keeps [simp]: "stdout (unsetenv n s) = stdout s" "stdin (unsetenv n s) = stdin s"
  by (simp_all add: unsetenv_def)

lemma resolve_path_Inr:
  "resolve_path argv s = (Inr x, s') \<Longrightarrow> s' = s"
  by (auto simp: resolve_path_def return_error_def split: if_splits option.splits prod.splits)

lemma reports_resolve_path: "reports (stdout s) (resolve_path argv s)"
  by (auto simp: resolve_path_def reports_return_error reports_Inr reports_Undefined
           split: option.splits prod.splits)

lemma validate_path_Inr:
  "validate_path p cd s = (Inr x, s') \<Longrightarrow> s' = s"
  by (auto simp: validate_path_def return_error_def split: if_splits option.splits)

lemma reports_validate_path: "reports (stdout s) (validate_path p cd s)"
  by (auto simp: validate_path_def reports_return_error reports_Inr split: option.splits)

lemma reports_imp:
  "reports out ((Inl e, s) :: 'a result) \<Longrightarrow> reports_or_exec out ((Inl e, s) :: 'b result)"
  by (cases e) (simp_all add: reports_def reports_or_exec_def)

lemma dispatch_outcome: "reports_or_exec (stdout s) (dispatch execve strerror p a s)"
  by (auto simp: dispatch_def reports_or_exec_def return_error_def split: option.splits)

lemma main_outcome: "reports_or_exec (stdout s) (main execve strerror argv s)"
proof -
  obtain r1 s1 where 1: "read_scgi_environment s = (r1, s1)" by (cases "read_scgi_environment s")
  with reports_read_scgi_environment [of s] have rep1: "reports (stdout s) (r1, s1)" by simp
  show ?thesis
  proof (cases r1)
    case (Inl e)
    with 1 rep1 show ?thesis by (simp add: main_def reports_imp)
  next
    case (Inr u)
    let ?s = "setenv ''GATEWAY_INTERFACE'' ''CGI/1.1'' (unsetenv ''SCGI'' s1)"
    from Inr rep1 have out1: "stdout ?s = stdout s" by (simp add: reports_def)
    obtain r2 s2 where 2: "resolve_path argv ?s = (r2, s2)" by (cases "resolve_path argv ?s")
    with reports_resolve_path [of ?s argv] out1 have rep2: "reports (stdout s) (r2, s2)" by simp
    show ?thesis
    proof (cases r2)
      case (Inl e)
      with 1 Inr 2 rep2 show ?thesis by (simp add: main_def reports_imp)
    next
      case r2: (Inr x)
      obtain p cd args where x: "x = (p, cd, args)" by (cases x)
      from r2 rep2 have out2: "stdout s2 = stdout s" by (simp add: reports_def)
      obtain r3 s3 where 3: "validate_path p cd s2 = (r3, s3)" by (cases "validate_path p cd s2")
      with reports_validate_path [of s2 p cd] out2 have rep3: "reports (stdout s) (r3, s3)" by simp
      show ?thesis
      proof (cases r3)
        case (Inl e)
        with 1 Inr 2 r2 x 3 rep3 show ?thesis by (simp add: main_def reports_imp)
      next
        case r3: (Inr y)
        with rep3 have "stdout s3 = stdout s" by (simp add: reports_def)
        with dispatch_outcome [of s3 execve strerror p args]
        have "reports_or_exec (stdout s) (dispatch execve strerror p args s3)" by simp
        with 1 Inr 2 r2 x 3 r3 show ?thesis by (simp add: main_def)
      qed
    qed
  qed
qed

subsection \<open>The header reader on a stream\<close>

lemma decimal_Cons: "decimal (d # ds) = decimal_from (digit_val d) ds"
  by (simp add: decimal_def decimal_from_def)

lemma read_scgi_environment_after_length:
  assumes ds: "ds \<noteq> []" "list_all isdigit ds"
    and len: "decimal ds = int l" "int l \<le> MAX_HEADER_LENGTH"
    and inp: "stdin s = ds @ CHR '':'' # rest"
  shows "read_scgi_environment s =
         (if length rest < l + 1 \<or> max 1 (read_max s) < l + 1
          then return_error ''500 Internal Error'' ''SCGI Header truncated''
                 (s\<lparr>stdin := drop (min (l + 1) (max 1 (read_max s))) rest\<rparr>)
          else if rest ! l \<noteq> CHR '',''
          then return_error ''500 Internal Error''
                 ''SCGI Header: Incomplete netstring, missing comma''
                 (s\<lparr>stdin := drop (l + 1) rest\<rparr>)
          else read_table_loop (take (l + 1) rest) l 0 (s\<lparr>stdin := drop (l + 1) rest\<rparr>))"
proof -
  obtain d ds' where dd: "ds = d # ds'" using ds(1) by (cases ds) auto
  define k where "k = min (l + 1) (max 1 (read_max s))"
  let ?s1 = "s\<lparr>stdin := ds' @ CHR '':'' # rest\<rparr>"
  let ?s2 = "s\<lparr>stdin := rest\<rparr>"
  let ?s3 = "s\<lparr>stdin := drop k rest\<rparr>"
  have d: "isdigit d" "list_all isdigit ds'" using ds(2) dd by simp_all
  have d0: "0 \<le> digit_val d" using digit_val_range [OF d(1)] by simp
  have dec: "decimal_from (digit_val d) ds' = int l"
    using len(1) by (simp add: dd decimal_Cons)
  have rc: "read_char s = (Inr d, ?s1)"
    using inp dd by (simp add: read_char_Cons)
  have rl: "read_length_loop (digit_val d) ?s1 = (Inr (int l), ?s2)"
    using read_length_loop_ok [OF d(2) d0, of ?s1 rest] dec len(2) by simp
  have rd: "sys_read (l + 1) ?s2 = (take k rest, ?s3)"
    by (simp add: sys_read_def k_def)
  have eq: "read_scgi_environment s =
        (if length (take k rest) \<noteq> l + 1
         then return_error ''500 Internal Error'' ''SCGI Header truncated'' ?s3
         else if take k rest ! l \<noteq> CHR '',''
         then return_error ''500 Internal Error''
                ''SCGI Header: Incomplete netstring, missing comma'' ?s3
         else if l \<noteq> 0 then read_table_loop (take k rest) l 0 ?s3
         else (Inr (), ?s3))"
    unfolding read_scgi_environment_def rc by (simp add: d(1) rl rd del: One_nat_def)
  show ?thesis
  proof (cases "length rest < l + 1 \<or> max 1 (read_max s) < l + 1")
    case True
    then have "length (take k rest) \<noteq> l + 1" unfolding k_def length_take by arith
    with True show ?thesis unfolding eq by (simp add: k_def del: One_nat_def)
  next
    case False
    then have k: "k = l + 1" unfolding k_def by arith
    with False have "length (take k rest) = l + 1" by simp
    with False show ?thesis
      unfolding eq by (cases "l = 0") (simp_all add: k read_table_loop_done del: One_nat_def)
  qed
qed

lemma read_scgi_environment_returns:
  assumes ds: "ds \<noteq> []" "list_all isdigit ds"
    and len: "decimal ds = int (length (encode_runs runs))"
    and max: "int (length (encode_runs runs)) \<le> MAX_HEADER_LENGTH"
    and runs: "list_all nul_free runs" "even (length runs)"
    and inp: "stdin s = ds @ CHR '':'' # encode_runs runs @ CHR '','' # body"
    and ret: "read_scgi_environment s = (Inr u, s1)"
  shows "s1 = (setenv_all (pairs_of runs) s)\<lparr>stdin := body\<rparr>"
proof (cases "length (encode_runs runs) + 1 \<le> max 1 (read_max s)")
  case True
  from read_scgi_environment_wf [OF ds len max runs inp True] ret show ?thesis by simp
next
  case False
  then have "length (encode_runs runs @ CHR '','' # body) < length (encode_runs runs) + 1 \<or>
             max 1 (read_max s) < length (encode_runs runs) + 1"
    by arith
  then have "fst (read_scgi_environment s) = Inl (Exit 1)"
    by (subst read_scgi_environment_after_length [OF ds len max inp])
       (simp only: if_True return_error_def fst_conv)
  with ret show ?thesis by simp
qed

lemma pairs_of_snoc: "even (length runs) \<Longrightarrow> pairs_of (runs @ [r]) = pairs_of runs"
  by (induction runs rule: pairs_of.induct) simp_all

lemma read_table_loop_odd_runs:
  assumes "list_all nul_free runs" "odd (length runs)"
  shows "read_table_loop (encode_runs runs @ rest) (length (encode_runs runs)) 0 s =
         return_error ''500 Internal Error'' ''SCGI Header: Corrupt name/value table''
           (setenv_all (pairs_of runs) s)"
proof -
  from assms(2) have ne: "runs \<noteq> []" by auto
  then have split: "runs = butlast runs @ [last runs]" by simp
  have front: "list_all nul_free (butlast runs)" "even (length (butlast runs))"
    "nul_free (last runs)"
    using assms ne by (simp_all add: list_all_iff in_set_butlastD)
  have "pairs_of (butlast runs @ [last runs]) = pairs_of (butlast runs)"
    using front(2) by (rule pairs_of_snoc)
  then have pairs: "pairs_of (butlast runs) = pairs_of runs"
    by (simp only: split [symmetric])
  from read_table_loop_odd [OF front, of rest s] show ?thesis
    by (simp only: split [symmetric] pairs)
qed

lemma read_scgi_environment_odd:
  assumes ds: "ds \<noteq> []" "list_all isdigit ds"
    and len: "decimal ds = int (length (encode_runs runs))"
      "int (length (encode_runs runs)) \<le> MAX_HEADER_LENGTH"
    and runs: "list_all nul_free runs" "odd (length runs)"
    and inp: "stdin s = ds @ CHR '':'' # encode_runs runs @ CHR '','' # body"
    and full: "length (encode_runs runs) + 1 \<le> max 1 (read_max s)"
  shows "read_scgi_environment s =
         return_error ''500 Internal Error'' ''SCGI Header: Corrupt name/value table''
           ((setenv_all (pairs_of runs) s)\<lparr>stdin := body\<rparr>)"
proof -
  from runs(2) have ne: "runs \<noteq> []" by auto
  define front where "front = butlast runs"
  define r where "r = last runs"
  have split: "runs = front @ [r]" using ne by (simp add: front_def r_def)
  have front: "list_all nul_free front" "even (length front)" "nul_free r"
    using runs by (simp_all add: split)
  let ?p = "encode_runs runs"
  have tbl: "read_table_loop (?p @ [CHR '','']) (length ?p) 0 (s\<lparr>stdin := body\<rparr>) =
        return_error ''500 Internal Error'' ''SCGI Header: Corrupt name/value table''
          (setenv_all (pairs_of front) (s\<lparr>stdin := body\<rparr>))"
    unfolding split using front by (rule read_table_loop_odd)
  have "read_scgi_environment s = read_table_loop (?p @ [CHR '','']) (length ?p) 0 (s\<lparr>stdin := body\<rparr>)"
  proof -
    let ?rest = "?p @ CHR '','' # body"
    have c1: "\<not> (length ?rest < length ?p + 1 \<or> max 1 (read_max s) < length ?p + 1)"
      using full by (auto simp: max_def split: if_splits)
    have c2: "?rest ! length ?p = CHR '',''" by (simp add: nth_append)
    have t: "take (length ?p + 1) ?rest = ?p @ [CHR '','']" "drop (length ?p + 1) ?rest = body"
      by simp_all
    show ?thesis
      by (subst read_scgi_environment_after_length [OF ds len inp])
         (simp only: c1 c2 t if_False simp_thms)
  qed
  with tbl show ?thesis
    by (simp add: split pairs_of_snoc front(2) setenv_all_update_stdin)
qed

lemma read_scgi_environment_too_long:
  assumes ds: "ds \<noteq> []" "list_all isdigit ds"
    and big: "MAX_HEADER_LENGTH < decimal ds"
    and inp: "stdin s = ds @ rest"
  shows "\<exists>k<length ds. read_scgi_environment s =
           return_error ''500 Internal Error''
             ''SCGI Header length is not in the range 0..262144''
             (s\<lparr>stdin := drop (Suc k) ds @ rest\<rparr>)"
proof -
  obtain d ds' where dd: "ds = d # ds'" using ds(1) by (cases ds) auto
  let ?s1 = "s\<lparr>stdin := ds' @ rest\<rparr>"
  have d: "isdigit d" "list_all isdigit ds'" using ds(2) dd by simp_all
  have d0: "0 \<le> digit_val d" "digit_val d \<le> MAX_HEADER_LENGTH"
    using digit_val_range [OF d(1)] by (simp_all add: MAX_HEADER_LENGTH_def)
  have rc: "read_char s = (Inr d, ?s1)"
    using inp dd by (simp add: read_char_Cons)
  from big have "MAX_HEADER_LENGTH < decimal_from (digit_val d) ds'"
    by (simp add: dd decimal_Cons)
  from read_length_loop_big [OF d(2) d0(1) this d0(2), of ?s1 rest]
  obtain k where k: "k < length ds'"
    "read_length_loop (digit_val d) ?s1 =
       return_error ''500 Internal Error''
         ''SCGI Header length is not in the range 0..262144''
         (s\<lparr>stdin := drop (Suc k) ds' @ rest\<rparr>)" by auto
  have "read_scgi_environment s =
           return_error ''500 Internal Error''
             ''SCGI Header length is not in the range 0..262144''
             (s\<lparr>stdin := drop (Suc (Suc k)) ds @ rest\<rparr>)"
    unfolding read_scgi_environment_def rc using d(1) k(2)
    by (simp add: dd return_error_def)
  with k(1) dd show ?thesis by (intro exI [of _ "Suc k"]) simp
qed

subsection \<open>The last pair of a name wins\<close>

lemma setenv_all_append: "setenv_all (ps @ qs) s = setenv_all qs (setenv_all ps s)"
  by (simp add: setenv_all_def)

lemma setenv_all_other: "n \<notin> fst ` set ps \<Longrightarrow> environ (setenv_all ps s) n = environ s n"
  by (induction ps arbitrary: s) (auto simp: setenv_environ)

lemma last_write_wins:
  assumes "ps = ps1 @ (n, v) # ps2" "n \<notin> fst ` set ps2" "env_name_ok n"
  shows "environ (setenv_all ps s) n = Some v"
proof -
  have "setenv_all ps s = setenv_all ps2 (setenv n v (setenv_all ps1 s))"
    by (simp add: assms(1) setenv_all_append)
  with assms(2,3) show ?thesis by (simp add: setenv_all_other setenv_environ)
qed

lemma length_encode_empty_runs: "length (encode_runs (replicate n [])) = n"
  by (induction n) simp_all

subsection \<open>From the checks to the dispatcher\<close>


subsection \<open>Scans that start inside a payload ending in NUL\<close>

lemma strlen_at_inside:
  assumes "payload \<noteq> []" "last payload = NUL" "i < length payload"
  shows "\<exists>n. strlen_at (payload @ [CHR '','']) i = Some n \<and> i + n < length payload"
proof -
  have "i \<le> length payload - 1" "length payload - 1 < length (payload @ [CHR '',''])"
    "(payload @ [CHR '','']) ! (length payload - 1) = NUL"
    using assms by (simp_all add: nth_append last_conv_nth)
  from strlen_at_le [OF this] assms(3) show ?thesis by fastforce
qed

subsection \<open>The forms of the command line\<close>

text \<open>
  What lines 162 to 178 do for each form of the command line. For the empty first argument
  the byte that decides is the NUL that ends \<^verbatim>\<open>argv[0]\<close>.
\<close>

lemma resolve_path_no_argument:
  "length argv \<le> 1 \<Longrightarrow>
   resolve_path argv s =
     (case getenv ''SCRIPT_FILENAME'' s of
        None \<Rightarrow> return_error ''500 Internal Error''
                  ''CGI environment missing SCRIPT_FILENAME'' s
      | Some f \<Rightarrow> (Inr (f, None, [f]), s))"
  by (simp add: resolve_path_def split: option.splits)

lemma last_index_nonempty:
  assumes "a \<noteq> []" "length a < 2 ^ 64"
  shows "unat (last_index a) = length a - 1" and "last_index a \<noteq> - 1"
proof -
  obtain n where n: "length a = Suc n" using assms(1) by (cases a) auto
  with assms(2) have lt: "n < 2 ^ 64" "n \<noteq> 2 ^ 64 - 1" by simp_all
  have w: "last_index a = word_of_nat n" by (simp add: last_index_def n)
  from lt(1) show "unat (last_index a) = length a - 1"
    by (simp add: w n unat_of_nat)
  have "unat (last_index a) \<noteq> unat (- 1 :: 64 word)"
    using lt by (simp add: w unat_of_nat unsigned_minus_1_eq_mask mask_eq_exp_minus_1)
  then show "last_index a \<noteq> - 1" by auto
qed

lemma last_index_empty: "last_index [] = - 1"
  by (simp add: last_index_def)

lemma char_at_last:
  "a \<noteq> [] \<Longrightarrow> length a < 2 ^ 64 \<Longrightarrow> char_at a (last_index a) = Some (last a)"
  by (simp add: char_at_def last_index_nonempty last_conv_nth)

lemma arg_area_Cons [simp]: "arg_area (a # argv) = a @ NUL # arg_area argv"
  by (simp add: arg_area_def)

lemma arg_area_Nil [simp]: "arg_area [] = []"
  by (simp add: arg_area_def)

lemma arg_start_1 [simp]: "arg_start (a # argv) (Suc 0) = Suc (length a)"
  by (simp add: arg_start_def)

lemma arg_read_first_argument:
  assumes "1 < length argv" "argv ! 1 \<noteq> []" "length (argv ! 1) < 2 ^ 64"
  shows "arg_read argv 1 (last_index (argv ! 1)) = Some (last (argv ! 1))"
proof -
  from assms(1) obtain a0 a1 more where argv: "argv = a0 # a1 # more"
    by (cases argv; cases "tl argv") auto
  with assms have a1: "a1 \<noteq> []" "length a1 < 2 ^ 64" by simp_all
  have "arg_area argv ! (length a0 + 1 + (length a1 - 1)) = a1 ! (length a1 - 1)"
    using a1(1) by (simp add: argv nth_append)
  with a1 show ?thesis
    by (simp add: arg_read_def last_index_nonempty [OF a1] last_conv_nth argv)
qed

lemma arg_read_empty_argument:
  assumes "1 < length argv" "argv ! 1 = []"
  shows "arg_read argv 1 (last_index (argv ! 1)) = Some NUL"
proof -
  from assms(1) obtain a0 a1 more where argv: "argv = a0 # a1 # more"
    by (cases argv; cases "tl argv") auto
  show ?thesis
    using assms(2) by (simp add: arg_read_def last_index_empty argv nth_append)
qed

lemma resolve_path_directory:
  "1 < length argv \<Longrightarrow> argv ! 1 \<noteq> [] \<Longrightarrow> length (argv ! 1) < 2 ^ 64 \<Longrightarrow>
   last (argv ! 1) = CHR ''/'' \<Longrightarrow>
   resolve_path argv s =
     (case getenv ''SCRIPT_FILENAME'' s of
        None \<Rightarrow> return_error ''500 Internal Error''
                  ''CGI environment missing SCRIPT_FILENAME'' s
      | Some f \<Rightarrow> (Inr (f, Some (argv ! 1), [f]), s))"
  using arg_read_first_argument [of argv] by (simp add: resolve_path_def split: option.splits)

lemma resolve_path_override:
  "1 < length argv \<Longrightarrow> argv ! 1 \<noteq> [] \<Longrightarrow> length (argv ! 1) < 2 ^ 64 \<Longrightarrow>
   last (argv ! 1) \<noteq> CHR ''/'' \<Longrightarrow>
   resolve_path argv s = (Inr (argv ! 1, None, drop 1 argv), s)"
  using arg_read_first_argument [of argv] by (simp add: resolve_path_def)

lemma resolve_path_empty:
  "1 < length argv \<Longrightarrow> argv ! 1 = [] \<Longrightarrow>
   resolve_path argv s = (Inr ([], None, drop 1 argv), s)"
  using arg_read_empty_argument [of argv] by (simp add: resolve_path_def NUL_def)

subsection \<open>The dispatcher and the environment it passes on\<close>

lemma dispatch_not_found:
  "execve p a (environ s) = Some ENOENT \<Longrightarrow>
   dispatch execve strerror p a s =
     (Inl (Exit 1),
      s\<lparr>stdout := stdout s @ response ''404 Not Found'' (''Can't locate CGI script'' @ LF)\<rparr>)"
  by (simp add: dispatch_def return_error_def)

lemma dispatch_other_error:
  "execve p a (environ s) = Some errno \<Longrightarrow> errno \<noteq> ENOENT \<Longrightarrow>
   dispatch execve strerror p a s =
     (Inl (Exit 1),
      s\<lparr>stdout := stdout s @ response ''500 Internal Error''
         (''Unable to execute CGI script, please contact the system administrator'' @ LF @
          strerror errno @ LF)\<rparr>)"
  by (simp add: dispatch_def return_error_def)

lemma main_exec:
  assumes "main execve strerror argv s = (Inl (Exec p a e), s')"
  shows "\<exists>u s1. read_scgi_environment s = (Inr u, s1) \<and>
           e = environ (setenv ''GATEWAY_INTERFACE'' ''CGI/1.1'' (unsetenv ''SCGI'' s1))"
proof -
  obtain r1 s1 where 1: "read_scgi_environment s = (r1, s1)" by (cases "read_scgi_environment s")
  with reports_read_scgi_environment [of s] have rep1: "reports (stdout s) (r1, s1)" by simp
  let ?s = "setenv ''GATEWAY_INTERFACE'' ''CGI/1.1'' (unsetenv ''SCGI'' s1)"
  obtain r2 s2 where 2: "resolve_path argv ?s = (r2, s2)" by (cases "resolve_path argv ?s")
  with reports_resolve_path [of ?s argv] have rep2: "reports (stdout ?s) (r2, s2)" by simp
  show ?thesis
  proof (cases r1)
    case (Inl e1)
    with assms 1 rep1 show ?thesis by (simp add: main_def reports_def)
  next
    case (Inr u)
    show ?thesis
    proof (cases r2)
      case (Inl e2)
      with assms 1 Inr 2 rep2 show ?thesis by (simp add: main_def reports_def)
    next
      case r2: (Inr x)
      obtain f cd args where x: "x = (f, cd, args)" by (cases x)
      from 2 r2 have s2: "s2 = ?s" by (simp add: resolve_path_Inr)
      obtain r3 s3 where 3: "validate_path f cd s2 = (r3, s3)" by (cases "validate_path f cd s2")
      with reports_validate_path [of s2 f cd] have rep3: "reports (stdout s2) (r3, s3)" by simp
      show ?thesis
      proof (cases r3)
        case (Inl e3)
        with assms 1 Inr 2 r2 x 3 rep3 show ?thesis by (simp add: main_def reports_def)
      next
        case r3: (Inr y)
        from 3 r3 have s3: "s3 = s2" by (simp add: validate_path_Inr)
        from assms 1 Inr 2 r2 x 3 r3 have "dispatch execve strerror f args s3 = (Inl (Exec p a e), s')"
          by (simp add: main_def)
        then have "e = environ s3"
          by (auto simp: dispatch_def return_error_def split: option.splits if_splits)
        with 1 Inr s2 s3 show ?thesis by simp
      qed
    qed
  qed
qed

lemma markers_environ:
  "environ (setenv ''GATEWAY_INTERFACE'' ''CGI/1.1'' (unsetenv ''SCGI'' s)) =
   (environ s)(''SCGI'' := None, ''GATEWAY_INTERFACE'' \<mapsto> ''CGI/1.1'')"
  by (simp add: setenv_def unsetenv_def)

text \<open>
  A run with the empty first argument, on the empty header block, when no file has the
  empty path: the empty string is taken as the script and the answer is the 404 response.
\<close>

lemma main_empty_argument:
  "main (\<lambda>p a e. Some ENOENT) strerror [''scgi_run'', []]
     \<lparr>stdin = ''0:,'', stdout = [], environ = Map.empty, read_max = 4096\<rparr> =
   (Inl (Exit 1),
    \<lparr>stdin = [],
     stdout = response ''404 Not Found'' (''Can't locate CGI script'' @ LF),
     environ = [''GATEWAY_INTERFACE'' \<mapsto> ''CGI/1.1''], read_max = 4096\<rparr>)"
  by (simp add: main_def read_scgi_environment_def read_char_def sys_read_def isdigit_def
        digit_val_def read_length_loop.simps MAX_HEADER_LENGTH_def resolve_path_empty
        validate_path_def dispatch_def return_error_def setenv_def unsetenv_def)

section \<open>The claims\<close>

subsection \<open>C1: a well-formed header block is parsed into the environment\<close>

text \<open>
  C1, as amended. For every input stream \<open><L>:<payload>,\<close> followed by any body, where
  \<open><L>\<close> is a string of decimal digits whose value is the length of the payload and is
  at most \<open>MAX_HEADER_LENGTH\<close>, and the payload is an even number of complete
  NUL-terminated strings, and for every run in which the one \<^verbatim>\<open>read\<close> of the block delivers
  all \<open>L + 1\<close> bytes (no short read): \<^verbatim>\<open>read_scgi_environment\<close> returns, has consumed the
  stream up to and including the comma, and has called \<^verbatim>\<open>setenv\<close> on the pairs in input
  order. The
  resulting environment is the old one overridden by the pairs whose name \<^verbatim>\<open>setenv\<close>
  accepts (non-empty, without \<open>=\<close>), the last pair of a name winning; pairs with another
  name are not applied.
\<close>

theorem header_parse_well_formed:
  assumes "ds \<noteq> []" and "list_all isdigit ds"
    and "decimal ds = int (length (encode_runs runs))"
    and "int (length (encode_runs runs)) \<le> MAX_HEADER_LENGTH"
    and "list_all nul_free runs" and "even (length runs)"
    and "stdin s = ds @ CHR '':'' # encode_runs runs @ CHR '','' # body"
    and "length (encode_runs runs) + 1 \<le> max 1 (read_max s)"
  shows "read_scgi_environment s = (Inr (), (setenv_all (pairs_of runs) s)\<lparr>stdin := body\<rparr>) \<and>
         environ (setenv_all (pairs_of runs) s) =
           environ s ++ map_of (rev (filter (\<lambda>(n, v). env_name_ok n) (pairs_of runs))) \<and>
         (\<forall>ps1 n v ps2.
            pairs_of runs = ps1 @ (n, v) # ps2 \<and> n \<notin> fst ` set ps2 \<and> env_name_ok n \<longrightarrow>
            environ (setenv_all (pairs_of runs) s) n = Some v)"
  using read_scgi_environment_wf [OF assms] setenv_all_environ [of "pairs_of runs" s]
    last_write_wins [of "pairs_of runs" _ _ _ _ s]
  by blast

text \<open>The theorem at the stream \<open>8:A\0b\0A\0c\0,body\<close>: the later value of \<open>A\<close> wins.\<close>

theorem header_parse_well_formed_witness:
  "list_all isdigit ''8'' \<and>
   decimal ''8'' = int (length (encode_runs [''A'', ''b'', ''A'', ''c''])) \<and>
   int (length (encode_runs [''A'', ''b'', ''A'', ''c''])) \<le> MAX_HEADER_LENGTH \<and>
   list_all nul_free [''A'', ''b'', ''A'', ''c''] \<and>
   even (length [''A'', ''b'', ''A'', ''c'']) \<and>
   length (encode_runs [''A'', ''b'', ''A'', ''c'']) + 1 \<le> max 1 4096 \<and>
   read_scgi_environment
     \<lparr>stdin = ''8:'' @ encode_runs [''A'', ''b'', ''A'', ''c''] @ '',body'',
      stdout = [], environ = Map.empty, read_max = 4096\<rparr> =
   (Inr (), \<lparr>stdin = ''body'', stdout = [], environ = [''A'' \<mapsto> ''c''], read_max = 4096\<rparr>)"
  using header_parse_well_formed [of "''8''" "[''A'', ''b'', ''A'', ''c'']"
     "\<lparr>stdin = ''8:'' @ encode_runs [''A'', ''b'', ''A'', ''c''] @ '',body'',
      stdout = [], environ = Map.empty, read_max = 4096\<rparr>" "''body''"]
  by (simp add: isdigit_def decimal_def decimal_from_def digit_val_def MAX_HEADER_LENGTH_def
        nul_free_def NUL_def setenv_def)

text \<open>
  C1 as stated fails in three ways. A well-formed stream whose declared length 262146
  exceeds the maximum is rejected while the length is read. On the well-formed stream
  \<open>6:X=Y\0v\0,\<close> parsing succeeds, but the pair of the name \<open>X=Y\<close> is not in the
  resulting environment: \<^verbatim>\<open>setenv\<close> refuses the name and the program ignores that. And on
  the well-formed stream \<open>8:A\0b\0A\0c\0,\<close>, when the \<^verbatim>\<open>read\<close> of the block delivers only
  the 4 bytes that have arrived, the program reports a truncated header: line 123 calls
  \<^verbatim>\<open>read\<close> once and does not ask for the rest.
\<close>

theorem header_parse_well_formed_counterexample:
  "(list_all nul_free (replicate 262146 []) \<and> even (length (replicate 262146 ([]::string))) \<and>
    decimal ''262146'' = int (length (encode_runs (replicate 262146 []))) \<and>
    fst (read_scgi_environment
          \<lparr>stdin = ''262146:'' @ encode_runs (replicate 262146 []) @ '','',
           stdout = [], environ = Map.empty, read_max = 4096\<rparr>) = Inl (Exit 1)) \<and>
   (list_all nul_free [''X=Y'', ''v''] \<and> even (length [''X=Y'', ''v'']) \<and>
    decimal ''6'' = int (length (encode_runs [''X=Y'', ''v''])) \<and>
    pairs_of [''X=Y'', ''v''] = [(''X=Y'', ''v'')] \<and>
    read_scgi_environment
      \<lparr>stdin = ''6:'' @ encode_runs [''X=Y'', ''v''] @ '','', stdout = [], environ = Map.empty, read_max = 4096\<rparr> =
    (Inr (), \<lparr>stdin = [], stdout = [], environ = Map.empty, read_max = 4096\<rparr>)) \<and>
   (list_all nul_free [''A'', ''b'', ''A'', ''c''] \<and> even (length [''A'', ''b'', ''A'', ''c'']) \<and>
    decimal ''8'' = int (length (encode_runs [''A'', ''b'', ''A'', ''c''])) \<and>
    read_scgi_environment
      \<lparr>stdin = ''8:'' @ encode_runs [''A'', ''b'', ''A'', ''c''] @ '','', stdout = [],
       environ = Map.empty, read_max = 4\<rparr> =
    (Inl (Exit 1),
     \<lparr>stdin = ''A'' @ [NUL] @ ''c'' @ [NUL] @ '','',
      stdout = response ''500 Internal Error'' ''SCGI Header truncated'',
      environ = Map.empty, read_max = 4\<rparr>))"
proof -
  have a: "fst (read_scgi_environment
          \<lparr>stdin = ''262146:'' @ encode_runs (replicate 262146 []) @ '','',
           stdout = [], environ = Map.empty, read_max = 4096\<rparr>) = Inl (Exit 1)"
    by (simp add: read_scgi_environment_def read_char_def sys_read_def isdigit_def digit_val_def
          read_length_loop.simps MAX_HEADER_LENGTH_def return_error_def)
  have b: "decimal ''262146'' = int (length (encode_runs (replicate 262146 [])))"
    by (simp add: length_encode_empty_runs decimal_def decimal_from_def digit_val_def)
  have c: "list_all nul_free (replicate 262146 [])"
    by (simp add: list_all_iff nul_free_def)
  have d: "read_scgi_environment
      \<lparr>stdin = ''6:'' @ encode_runs [''X=Y'', ''v''] @ '','', stdout = [], environ = Map.empty, read_max = 4096\<rparr> =
    (Inr (), \<lparr>stdin = [], stdout = [], environ = Map.empty, read_max = 4096\<rparr>)"
    by (simp add: read_scgi_environment_def read_char_def sys_read_def isdigit_def digit_val_def
          read_length_loop.simps MAX_HEADER_LENGTH_def return_error_def
          read_table_loop.simps strlen_at_def string_at_def NUL_def setenv_def)
  have e: "decimal ''6'' = int (length (encode_runs [''X=Y'', ''v'']))"
    by (simp add: decimal_def decimal_from_def digit_val_def)
  have f: "read_scgi_environment
      \<lparr>stdin = ''8:'' @ encode_runs [''A'', ''b'', ''A'', ''c''] @ '','', stdout = [],
       environ = Map.empty, read_max = 4\<rparr> =
    (Inl (Exit 1),
     \<lparr>stdin = ''A'' @ [NUL] @ ''c'' @ [NUL] @ '','',
      stdout = response ''500 Internal Error'' ''SCGI Header truncated'',
      environ = Map.empty, read_max = 4\<rparr>)"
    by (simp add: read_scgi_environment_def read_char_def sys_read_def isdigit_def digit_val_def
          read_length_loop.simps MAX_HEADER_LENGTH_def return_error_def)
  have g: "decimal ''8'' = int (length (encode_runs [''A'', ''b'', ''A'', ''c'']))"
    by (simp add: decimal_def decimal_from_def digit_val_def)
  show ?thesis using a b c d e f g by (simp add: nul_free_def NUL_def)
qed

subsection \<open>C2: the two checks on the handler path\<close>



subsection \<open>C3: a value that starts at or past the end of the payload\<close>

text \<open>
  C3. In the walk over the table, whenever the start of a value, which is the offset after
  the NUL that ends the name, is at or past the end of the \<open>len\<close>-byte region, the
  process ends with the error response for a corrupt table. In particular the walk over
  every payload that is an odd number of complete NUL-terminated runs ends that way (after
  the pairs before the last run have been applied), and so does \<^verbatim>\<open>read_scgi_environment\<close> on
  every stream with such a payload whose block is delivered by the \<^verbatim>\<open>read\<close> of line 123.
\<close>

theorem corrupt_table:
  "(name < len \<and> strlen_at headers name = Some n \<and> len \<le> name + n + 1 \<longrightarrow>
      read_table_loop headers len name s =
        return_error ''500 Internal Error'' ''SCGI Header: Corrupt name/value table'' s) \<and>
   (ds \<noteq> [] \<and> list_all isdigit ds \<and> decimal ds = int (length (encode_runs runs)) \<and>
    int (length (encode_runs runs)) \<le> MAX_HEADER_LENGTH \<and>
    list_all nul_free runs \<and> odd (length runs) \<and>
    stdin s = ds @ CHR '':'' # encode_runs runs @ CHR '','' # body \<and>
    length (encode_runs runs) + 1 \<le> max 1 (read_max s) \<longrightarrow>
      read_scgi_environment s =
        return_error ''500 Internal Error'' ''SCGI Header: Corrupt name/value table''
          ((setenv_all (pairs_of runs) s)\<lparr>stdin := body\<rparr>)) \<and>
   (list_all nul_free runs \<and> odd (length runs) \<longrightarrow>
      read_table_loop (encode_runs runs @ [CHR '','']) (length (encode_runs runs)) 0 s =
        return_error ''500 Internal Error'' ''SCGI Header: Corrupt name/value table''
          (setenv_all (pairs_of runs) s))"
proof -
  have "read_table_loop headers len name s =
        return_error ''500 Internal Error'' ''SCGI Header: Corrupt name/value table'' s"
    if "name < len" "strlen_at headers name = Some n" "len \<le> name + n + 1"
    using that by (subst read_table_loop.simps) simp
  then show ?thesis
    using read_scgi_environment_odd [of ds runs s body]
      read_table_loop_odd_runs [of runs "[CHR '','']" s]
    by blast
qed

text \<open>The theorem at the payload \<open>A\0b\0C\0\<close> of three runs.\<close>

theorem corrupt_table_witness:
  "list_all isdigit ''6'' \<and> decimal ''6'' = int (length (encode_runs [''A'', ''b'', ''C''])) \<and>
   int (length (encode_runs [''A'', ''b'', ''C''])) \<le> MAX_HEADER_LENGTH \<and>
   list_all nul_free [''A'', ''b'', ''C''] \<and> odd (length [''A'', ''b'', ''C'']) \<and>
   length (encode_runs [''A'', ''b'', ''C'']) + 1 \<le> max 1 4096 \<and>
   strlen_at (encode_runs [''A'', ''b'', ''C''] @ '','') 4 = Some 1 \<and>
   read_table_loop (encode_runs [''A'', ''b'', ''C''] @ '','') 6 4
     \<lparr>stdin = [], stdout = [], environ = Map.empty, read_max = 4096\<rparr> =
   (Inl (Exit 1),
    \<lparr>stdin = [],
     stdout = response ''500 Internal Error'' ''SCGI Header: Corrupt name/value table'',
     environ = Map.empty, read_max = 4096\<rparr>) \<and>
   read_scgi_environment
     \<lparr>stdin = ''6:'' @ encode_runs [''A'', ''b'', ''C''] @ '','', stdout = [],
      environ = Map.empty, read_max = 4096\<rparr> =
   (Inl (Exit 1),
    \<lparr>stdin = [],
     stdout = response ''500 Internal Error'' ''SCGI Header: Corrupt name/value table'',
     environ = [''A'' \<mapsto> ''b''], read_max = 4096\<rparr>)"
  using
    corrupt_table [of 4 6 "encode_runs [''A'', ''b'', ''C''] @ '',''" 1
      "\<lparr>stdin = [], stdout = [], environ = Map.empty, read_max = 4096\<rparr>" "[]" "[]" "[]"]
    corrupt_table [of 0 0 "[]" 0
      "\<lparr>stdin = ''6:'' @ encode_runs [''A'', ''b'', ''C''] @ '','', stdout = [],
      environ = Map.empty, read_max = 4096\<rparr>" "''6''" "[''A'', ''b'', ''C'']" "[]"]
  by (simp add: isdigit_def decimal_def decimal_from_def digit_val_def MAX_HEADER_LENGTH_def
        nul_free_def NUL_def setenv_def strlen_at_def return_error_def)

subsection \<open>C4: a declared length over the maximum\<close>

text \<open>
  C4. For every stream that starts with a string of decimal digits whose value exceeds
  \<open>MAX_HEADER_LENGTH\<close>, \<^verbatim>\<open>read_scgi_environment\<close> ends the process with the error
  response for a length out of range while it is still reading the digits: what follows
  the digits in the stream (the colon and the payload) is unread, and the environment is
  the one the process started with.
\<close>

theorem length_over_maximum:
  assumes "ds \<noteq> []" and "list_all isdigit ds" and "MAX_HEADER_LENGTH < decimal ds"
    and "stdin s = ds @ rest"
  shows "\<exists>unread. suffix unread ds \<and>
           read_scgi_environment s =
             (Inl (Exit 1),
              s\<lparr>stdin := unread @ rest,
                stdout := stdout s @ response ''500 Internal Error''
                  ''SCGI Header length is not in the range 0..262144''\<rparr>) \<and>
           environ (snd (read_scgi_environment s)) = environ s"
proof -
  from read_scgi_environment_too_long [OF assms] obtain k where
    "read_scgi_environment s =
       return_error ''500 Internal Error''
         ''SCGI Header length is not in the range 0..262144''
         (s\<lparr>stdin := drop (Suc k) ds @ rest\<rparr>)" by blast
  then have "suffix (drop (Suc k) ds) ds \<and>
           read_scgi_environment s =
             (Inl (Exit 1),
              s\<lparr>stdin := drop (Suc k) ds @ rest,
                stdout := stdout s @ response ''500 Internal Error''
                  ''SCGI Header length is not in the range 0..262144''\<rparr>) \<and>
           environ (snd (read_scgi_environment s)) = environ s"
    by (simp add: return_error_def suffix_drop)
  then show ?thesis by blast
qed

text \<open>The theorem at the stream \<open>262145:payload\<close>.\<close>

theorem length_over_maximum_witness:
  "list_all isdigit ''262145'' \<and> MAX_HEADER_LENGTH < decimal ''262145'' \<and>
   (\<exists>unread. suffix unread ''262145'' \<and>
      read_scgi_environment
        \<lparr>stdin = ''262145:payload'', stdout = [], environ = [''A'' \<mapsto> ''b''], read_max = 4096\<rparr> =
      (Inl (Exit 1),
       \<lparr>stdin = unread @ '':payload'',
        stdout = response ''500 Internal Error''
                   ''SCGI Header length is not in the range 0..262144'',
        environ = [''A'' \<mapsto> ''b''], read_max = 4096\<rparr>))"
  using length_over_maximum [of "''262145''"
      "\<lparr>stdin = ''262145:payload'', stdout = [], environ = [''A'' \<mapsto> ''b''], read_max = 4096\<rparr>" "'':payload''"]
  by (simp add: isdigit_def decimal_def decimal_from_def digit_val_def MAX_HEADER_LENGTH_def)
     blast

subsection \<open>C5: path resolution\<close>

text \<open>
  C5. For every invocation (the first argument, like every string of the machine, being
  shorter than \<open>2 ^ 64\<close> bytes): without a command-line argument the handler path is the
  value of \<open>SCRIPT_FILENAME\<close>, there is no directory to check, and the handler's argument
  vector is the path alone; with a first argument whose last character is \<open>/\<close> the
  argument is the directory to check and the path and the argument vector are as before;
  with any other first argument, the empty one included, the argument is the handler path
  and the handler's argument vector is that argument followed by all further arguments.
  Where the path is to come from \<open>SCRIPT_FILENAME\<close> and the variable is not set, the
  process ends with the error response for the missing variable. The variable is the one
  the header reader left: removing \<open>SCGI\<close> and setting \<open>GATEWAY_INTERFACE\<close> do not touch it.
\<close>

theorem path_resolution:
  assumes "1 < length argv \<longrightarrow> length (argv ! 1) < 2 ^ 64"
  shows
    "(length argv \<le> 1 \<longrightarrow>
        resolve_path argv s =
          (case getenv ''SCRIPT_FILENAME'' s of
             None \<Rightarrow> return_error ''500 Internal Error''
                       ''CGI environment missing SCRIPT_FILENAME'' s
           | Some f \<Rightarrow> (Inr (f, None, [f]), s))) \<and>
     (1 < length argv \<and> argv ! 1 \<noteq> [] \<and> last (argv ! 1) = CHR ''/'' \<longrightarrow>
        resolve_path argv s =
          (case getenv ''SCRIPT_FILENAME'' s of
             None \<Rightarrow> return_error ''500 Internal Error''
                       ''CGI environment missing SCRIPT_FILENAME'' s
           | Some f \<Rightarrow> (Inr (f, Some (argv ! 1), [f]), s))) \<and>
     (1 < length argv \<and> (argv ! 1 = [] \<or> last (argv ! 1) \<noteq> CHR ''/'') \<longrightarrow>
        resolve_path argv s = (Inr (argv ! 1, None, argv ! 1 # drop 2 argv), s)) \<and>
     getenv ''SCRIPT_FILENAME'' (setenv ''GATEWAY_INTERFACE'' ''CGI/1.1'' (unsetenv ''SCGI'' s)) =
       getenv ''SCRIPT_FILENAME'' s"
proof -
  have d: "drop 1 argv = argv ! 1 # drop 2 argv" if "1 < length argv"
    using that by (cases argv; cases "tl argv") auto
  have 1: "resolve_path argv s = (Inr (argv ! 1, None, argv ! 1 # drop 2 argv), s)"
    if "1 < length argv" "argv ! 1 = [] \<or> last (argv ! 1) \<noteq> CHR ''/''"
  proof (cases "argv ! 1 = []")
    case True
    with that(1) d show ?thesis by (simp add: resolve_path_empty)
  next
    case False
    with that assms d show ?thesis by (simp add: resolve_path_override)
  qed
  have 2: "getenv ''SCRIPT_FILENAME''
             (setenv ''GATEWAY_INTERFACE'' ''CGI/1.1'' (unsetenv ''SCGI'' s)) =
           getenv ''SCRIPT_FILENAME'' s"
    by (simp add: getenv_def markers_environ)
  show ?thesis
    using assms 1 2 resolve_path_no_argument [of argv s] resolve_path_directory [of argv s]
    by blast
qed

text \<open>
  The theorem at the four forms of the command line: no argument, a directory, a script with
  a further argument, and the empty argument.
\<close>

theorem path_resolution_witness:
  "resolve_path [''scgi_run'']
     \<lparr>stdin = [], stdout = [], environ = [''SCRIPT_FILENAME'' \<mapsto> ''/srv/cgi/a.cgi''],
      read_max = 4096\<rparr> =
   (Inr (''/srv/cgi/a.cgi'', None, [''/srv/cgi/a.cgi'']),
    \<lparr>stdin = [], stdout = [], environ = [''SCRIPT_FILENAME'' \<mapsto> ''/srv/cgi/a.cgi''],
     read_max = 4096\<rparr>) \<and>
   resolve_path [''scgi_run'', ''/srv/cgi/'']
     \<lparr>stdin = [], stdout = [], environ = [''SCRIPT_FILENAME'' \<mapsto> ''/srv/cgi/a.cgi''],
      read_max = 4096\<rparr> =
   (Inr (''/srv/cgi/a.cgi'', Some ''/srv/cgi/'', [''/srv/cgi/a.cgi'']),
    \<lparr>stdin = [], stdout = [], environ = [''SCRIPT_FILENAME'' \<mapsto> ''/srv/cgi/a.cgi''],
     read_max = 4096\<rparr>) \<and>
   resolve_path [''scgi_run'', ''/srv/cgi/'']
     \<lparr>stdin = [], stdout = [], environ = Map.empty, read_max = 4096\<rparr> =
   (Inl (Exit 1),
    \<lparr>stdin = [],
     stdout = response ''500 Internal Error'' ''CGI environment missing SCRIPT_FILENAME'',
     environ = Map.empty, read_max = 4096\<rparr>) \<and>
   resolve_path [''scgi_run'', ''/bin/b.cgi'', ''-v'']
     \<lparr>stdin = [], stdout = [], environ = [''SCRIPT_FILENAME'' \<mapsto> ''/srv/cgi/a.cgi''],
      read_max = 4096\<rparr> =
   (Inr (''/bin/b.cgi'', None, [''/bin/b.cgi'', ''-v'']),
    \<lparr>stdin = [], stdout = [], environ = [''SCRIPT_FILENAME'' \<mapsto> ''/srv/cgi/a.cgi''],
     read_max = 4096\<rparr>) \<and>
   resolve_path [''scgi_run'', [], ''-v'']
     \<lparr>stdin = [], stdout = [], environ = [''SCRIPT_FILENAME'' \<mapsto> ''/srv/cgi/a.cgi''],
      read_max = 4096\<rparr> =
   (Inr ([], None, [[], ''-v'']),
    \<lparr>stdin = [], stdout = [], environ = [''SCRIPT_FILENAME'' \<mapsto> ''/srv/cgi/a.cgi''],
     read_max = 4096\<rparr>)"
proof -
  let ?s = "\<lparr>stdin = [], stdout = [], environ = [''SCRIPT_FILENAME'' \<mapsto> ''/srv/cgi/a.cgi''],
             read_max = 4096\<rparr>"
  let ?e = "\<lparr>stdin = [], stdout = [], environ = Map.empty, read_max = 4096\<rparr>"
  have
    "resolve_path [''scgi_run''] ?s =
       (Inr (''/srv/cgi/a.cgi'', None, [''/srv/cgi/a.cgi'']), ?s)"
    using path_resolution [of "[''scgi_run'']" ?s] by (simp add: getenv_def)
  moreover have
    "resolve_path [''scgi_run'', ''/srv/cgi/''] ?s =
       (Inr (''/srv/cgi/a.cgi'', Some ''/srv/cgi/'', [''/srv/cgi/a.cgi'']), ?s)"
    using path_resolution [of "[''scgi_run'', ''/srv/cgi/'']" ?s] by (simp add: getenv_def)
  moreover have
    "resolve_path [''scgi_run'', ''/srv/cgi/''] ?e =
       (Inl (Exit 1),
        ?e\<lparr>stdout := response ''500 Internal Error''
                          ''CGI environment missing SCRIPT_FILENAME''\<rparr>)"
    using path_resolution [of "[''scgi_run'', ''/srv/cgi/'']" ?e]
    by (simp add: getenv_def return_error_def)
  moreover have
    "resolve_path [''scgi_run'', ''/bin/b.cgi'', ''-v''] ?s =
       (Inr (''/bin/b.cgi'', None, [''/bin/b.cgi'', ''-v'']), ?s)"
    using path_resolution [of "[''scgi_run'', ''/bin/b.cgi'', ''-v'']" ?s] by simp
  moreover have
    "resolve_path [''scgi_run'', [], ''-v''] ?s = (Inr ([], None, [[], ''-v'']), ?s)"
    using path_resolution [of "[''scgi_run'', [], ''-v'']" ?s] by simp
  ultimately show ?thesis by simp
qed

subsection \<open>C6: every failure is reported once and exits with status 1\<close>

text \<open>
  C6. Whenever a run of \<^verbatim>\<open>main\<close> ends by \<^verbatim>\<open>exit\<close>, whichever component failed, the exit
  status is 1 and exactly one response
  \<open>Status: <status>\r\nContent-Type: text/plain\r\n\r\n<message>\r\n\<close> has been appended
  to the output stream, with one of the three status texts of the source; a run that ends
  otherwise has written nothing, and \<^verbatim>\<open>main\<close> never returns. When \<^verbatim>\<open>execve\<close> fails with
  \<^verbatim>\<open>ENOENT\<close> the response has the status \<open>404 Not Found\<close>; when it fails with another
  error number the response has the status \<open>500 Internal Error\<close> and a message that
  contains the system's text for that error number.
\<close>

theorem failures_reported:
  "(\<forall>n s'. main execve strerror argv s = (Inl (Exit n), s') \<longrightarrow>
      n = 1 \<and>
      (\<exists>status msg.
         status \<in> {''500 Internal Error'', ''500 Invalid SCGI header'', ''404 Not Found''} \<and>
         stdout s' =
           stdout s @ ''Status: '' @ status @ [CHR 0x0D, CHR 0x0A] @
           ''Content-Type: text/plain'' @ [CHR 0x0D, CHR 0x0A] @ [CHR 0x0D, CHR 0x0A] @
           msg @ [CHR 0x0D, CHR 0x0A])) \<and>
   (\<forall>stop s'. main execve strerror argv s = (Inl stop, s') \<and> (\<forall>n. stop \<noteq> Exit n) \<longrightarrow>
      stdout s' = stdout s) \<and>
   (\<forall>u s'. main execve strerror argv s \<noteq> (Inr u, s')) \<and>
   (execve p a (environ s) = Some ENOENT \<longrightarrow>
      dispatch execve strerror p a s =
        (Inl (Exit 1),
         s\<lparr>stdout := stdout s @
            response ''404 Not Found'' (''Can't locate CGI script'' @ LF)\<rparr>)) \<and>
   (execve p a (environ s) = Some errno \<and> errno \<noteq> ENOENT \<longrightarrow>
      dispatch execve strerror p a s =
        (Inl (Exit 1),
         s\<lparr>stdout := stdout s @ response ''500 Internal Error''
            (''Unable to execute CGI script, please contact the system administrator'' @ LF @
             strerror errno @ LF)\<rparr>))"
proof -
  have m: "reports_or_exec (stdout s) (main execve strerror argv s)" by (rule main_outcome)
  have 1: "n = 1 \<and>
      (\<exists>status msg.
         status \<in> {''500 Internal Error'', ''500 Invalid SCGI header'', ''404 Not Found''} \<and>
         stdout s' =
           stdout s @ ''Status: '' @ status @ [CHR 0x0D, CHR 0x0A] @
           ''Content-Type: text/plain'' @ [CHR 0x0D, CHR 0x0A] @ [CHR 0x0D, CHR 0x0A] @
           msg @ [CHR 0x0D, CHR 0x0A])"
    if "main execve strerror argv s = (Inl (Exit n), s')" for n s'
    using m that by (simp add: reports_or_exec_def response_def CRLF_def)
  have 2: "stdout s' = stdout s"
    if "main execve strerror argv s = (Inl stop, s')" "\<forall>n. stop \<noteq> Exit n" for stop s'
    using m that by (cases stop) (simp_all add: reports_or_exec_def)
  have 3: "main execve strerror argv s \<noteq> (Inr u, s')" for u s'
    using m by (auto simp: reports_or_exec_def)
  show ?thesis
    using 1 2 3 dispatch_not_found [of execve p a s strerror]
      dispatch_other_error [of execve p a s errno strerror]
    by blast
qed

text \<open>
  The theorem at the empty input stream, and at a dispatch that fails with \<^verbatim>\<open>ENOENT\<close> and
  with error number 13.
\<close>

theorem failures_reported_witness:
  "main (\<lambda>p a e. Some ENOENT) (\<lambda>n. ''reason'') [''scgi_run'']
     \<lparr>stdin = [], stdout = [], environ = Map.empty, read_max = 4096\<rparr> =
   (Inl (Exit 1),
    \<lparr>stdin = [],
     stdout = ''Status: 500 Internal Error'' @ [CHR 0x0D, CHR 0x0A] @
              ''Content-Type: text/plain'' @ [CHR 0x0D, CHR 0x0A] @ [CHR 0x0D, CHR 0x0A] @
              ''SCGI stream truncated'' @ [CHR 0x0D, CHR 0x0A],
     environ = Map.empty, read_max = 4096\<rparr>) \<and>
   dispatch (\<lambda>p a e. Some ENOENT) (\<lambda>n. ''reason'') ''/srv/cgi/a.cgi'' [''/srv/cgi/a.cgi'']
     \<lparr>stdin = [], stdout = [], environ = Map.empty, read_max = 4096\<rparr> =
   (Inl (Exit 1),
    \<lparr>stdin = [],
     stdout = response ''404 Not Found'' (''Can't locate CGI script'' @ LF),
     environ = Map.empty, read_max = 4096\<rparr>) \<and>
   dispatch (\<lambda>p a e. Some 13) (\<lambda>n. ''reason'') ''/srv/cgi/a.cgi'' [''/srv/cgi/a.cgi'']
     \<lparr>stdin = [], stdout = [], environ = Map.empty, read_max = 4096\<rparr> =
   (Inl (Exit 1),
    \<lparr>stdin = [],
     stdout = response ''500 Internal Error''
       (''Unable to execute CGI script, please contact the system administrator'' @ LF @
        ''reason'' @ LF),
     environ = Map.empty, read_max = 4096\<rparr>)"
proof -
  let ?s = "\<lparr>stdin = [], stdout = [], environ = Map.empty, read_max = 4096\<rparr>"
  note enoent =
    failures_reported [of "\<lambda>p a e. Some ENOENT" "\<lambda>n. ''reason''" "[''scgi_run'']" ?s
      "''/srv/cgi/a.cgi''" "[''/srv/cgi/a.cgi'']" 13]
  note eacces =
    failures_reported [of "\<lambda>p a e. Some 13" "\<lambda>n. ''reason''" "[''scgi_run'']" ?s
      "''/srv/cgi/a.cgi''" "[''/srv/cgi/a.cgi'']" 13]
  have 1: "main (\<lambda>p a e. Some ENOENT) (\<lambda>n. ''reason'') [''scgi_run''] ?s =
           (Inl (Exit 1), ?s\<lparr>stdout := response ''500 Internal Error'' ''SCGI stream truncated''\<rparr>)"
    by (simp add: main_def read_scgi_environment_def read_char_def sys_read_def return_error_def)
  have 2: "dispatch (\<lambda>p a e. Some ENOENT) (\<lambda>n. ''reason'') ''/srv/cgi/a.cgi''
             [''/srv/cgi/a.cgi''] ?s =
           (Inl (Exit 1),
            ?s\<lparr>stdout := stdout ?s @
               response ''404 Not Found'' (''Can't locate CGI script'' @ LF)\<rparr>)"
    using enoent [THEN conjunct2, THEN conjunct2, THEN conjunct2, THEN conjunct1] by simp
  have 3: "dispatch (\<lambda>p a e. Some 13) (\<lambda>n. ''reason'') ''/srv/cgi/a.cgi''
             [''/srv/cgi/a.cgi''] ?s =
           (Inl (Exit 1),
            ?s\<lparr>stdout := stdout ?s @ response ''500 Internal Error''
               (''Unable to execute CGI script, please contact the system administrator'' @
                LF @ ''reason'' @ LF)\<rparr>)"
    using eacces [THEN conjunct2, THEN conjunct2, THEN conjunct2, THEN conjunct2]
    by (simp add: ENOENT_def)
  show ?thesis
    unfolding 1 2 3 by (simp add: response_def CRLF_def)
qed

subsection \<open>C7: reading the block after the length\<close>




subsection \<open>C8: the environment handed to the handler\<close>

text \<open>
  C8, as amended. Whenever \<^verbatim>\<open>main\<close> reaches a successful \<^verbatim>\<open>execve\<close>, whatever the input
  stream and the command line were, the environment it passes has no entry \<open>SCGI\<close> and
  has \<open>GATEWAY_INTERFACE\<close> set to \<open>CGI/1.1\<close>. When the input stream is a well-formed
  header block, that environment is the one the process started with, overridden by the
  header's pairs whose name is non-empty and has no \<open>=\<close> (the last pair of a name
  winning), then with \<open>SCGI\<close> removed and \<open>GATEWAY_INTERFACE\<close> set; pairs with another
  name are not in it.
\<close>

theorem effective_environment:
  "(\<forall>p a e s'. main execve strerror argv s = (Inl (Exec p a e), s') \<longrightarrow>
      e ''SCGI'' = None \<and> e ''GATEWAY_INTERFACE'' = Some ''CGI/1.1'') \<and>
   (ds \<noteq> [] \<and> list_all isdigit ds \<and> decimal ds = int (length (encode_runs runs)) \<and>
    int (length (encode_runs runs)) \<le> MAX_HEADER_LENGTH \<and>
    list_all nul_free runs \<and> even (length runs) \<and>
    stdin s = ds @ CHR '':'' # encode_runs runs @ CHR '','' # body \<longrightarrow>
      (\<forall>p a e s'. main execve strerror argv s = (Inl (Exec p a e), s') \<longrightarrow>
         e = (environ s ++ map_of (rev (filter (\<lambda>(n, v). env_name_ok n) (pairs_of runs))))
               (''SCGI'' := None, ''GATEWAY_INTERFACE'' \<mapsto> ''CGI/1.1'')))"
proof -
  have 1: "e ''SCGI'' = None \<and> e ''GATEWAY_INTERFACE'' = Some ''CGI/1.1''"
    if "main execve strerror argv s = (Inl (Exec p a e), s')" for p a e s'
    using main_exec [OF that] by (auto simp: markers_environ)
  have 2: "e = (environ s ++ map_of (rev (filter (\<lambda>(n, v). env_name_ok n) (pairs_of runs))))
               (''SCGI'' := None, ''GATEWAY_INTERFACE'' \<mapsto> ''CGI/1.1'')"
    if wf: "ds \<noteq> []" "list_all isdigit ds" "decimal ds = int (length (encode_runs runs))"
      "int (length (encode_runs runs)) \<le> MAX_HEADER_LENGTH"
      "list_all nul_free runs" "even (length runs)"
      "stdin s = ds @ CHR '':'' # encode_runs runs @ CHR '','' # body"
      and ex: "main execve strerror argv s = (Inl (Exec p a e), s')" for p a e s'
  proof -
    from main_exec [OF ex] obtain u s1 where
      s1: "read_scgi_environment s = (Inr u, s1)"
      "e = environ (setenv ''GATEWAY_INTERFACE'' ''CGI/1.1'' (unsetenv ''SCGI'' s1))" by blast
    from read_scgi_environment_returns [OF wf s1(1)]
    have "s1 = (setenv_all (pairs_of runs) s)\<lparr>stdin := body\<rparr>" .
    then have "environ s1 = environ (setenv_all (pairs_of runs) s)" by simp
    with s1(2) show ?thesis by (simp only: markers_environ setenv_all_environ)
  qed
  show ?thesis using 1 2 by blast
qed

text \<open>
  The theorem at the header block with the pairs \<open>CONTENT_LENGTH=0\<close>, \<open>SCGI=1\<close> and
  \<open>SCRIPT_FILENAME=/srv/cgi/a.cgi\<close>, without command-line arguments.
\<close>

theorem effective_environment_witness:
  "(''55'' \<noteq> [] \<and> list_all isdigit ''55'' \<and>
    decimal ''55'' =
      int (length (encode_runs [''CONTENT_LENGTH'', ''0'', ''SCGI'', ''1'',
                                ''SCRIPT_FILENAME'', ''/srv/cgi/a.cgi''])) \<and>
    int (length (encode_runs [''CONTENT_LENGTH'', ''0'', ''SCGI'', ''1'',
                              ''SCRIPT_FILENAME'', ''/srv/cgi/a.cgi''])) \<le> MAX_HEADER_LENGTH \<and>
    list_all nul_free [''CONTENT_LENGTH'', ''0'', ''SCGI'', ''1'',
                       ''SCRIPT_FILENAME'', ''/srv/cgi/a.cgi''] \<and>
    even (length [''CONTENT_LENGTH'', ''0'', ''SCGI'', ''1'',
                  ''SCRIPT_FILENAME'', ''/srv/cgi/a.cgi''])) \<and>
   main (\<lambda>p a e. None) (\<lambda>n. []) [''scgi_run'']
     \<lparr>stdin = ''55:'' @ encode_runs [''CONTENT_LENGTH'', ''0'', ''SCGI'', ''1'',
                                      ''SCRIPT_FILENAME'', ''/srv/cgi/a.cgi''] @ '','',
      stdout = [], environ = Map.empty, read_max = 4096\<rparr> =
   (Inl (Exec ''/srv/cgi/a.cgi'' [''/srv/cgi/a.cgi'']
          [''CONTENT_LENGTH'' \<mapsto> ''0'', ''SCRIPT_FILENAME'' \<mapsto> ''/srv/cgi/a.cgi'',
           ''GATEWAY_INTERFACE'' \<mapsto> ''CGI/1.1'']),
    \<lparr>stdin = [], stdout = [],
     environ = [''CONTENT_LENGTH'' \<mapsto> ''0'', ''SCRIPT_FILENAME'' \<mapsto> ''/srv/cgi/a.cgi'',
                ''GATEWAY_INTERFACE'' \<mapsto> ''CGI/1.1''], read_max = 4096\<rparr>) \<and>
   [''CONTENT_LENGTH'' \<mapsto> ''0'', ''SCRIPT_FILENAME'' \<mapsto> ''/srv/cgi/a.cgi'',
    ''GATEWAY_INTERFACE'' \<mapsto> ''CGI/1.1''] =
   (Map.empty ++
    map_of (rev (filter (\<lambda>(n, v). env_name_ok n)
      (pairs_of [''CONTENT_LENGTH'', ''0'', ''SCGI'', ''1'',
                 ''SCRIPT_FILENAME'', ''/srv/cgi/a.cgi'']))))
     (''SCGI'' := None, ''GATEWAY_INTERFACE'' \<mapsto> ''CGI/1.1'')"
proof -
  let ?runs = "[''CONTENT_LENGTH'', ''0'', ''SCGI'', ''1'', ''SCRIPT_FILENAME'', ''/srv/cgi/a.cgi'']"
  let ?s = "\<lparr>stdin = ''55:'' @ encode_runs ?runs @ '','', stdout = [], environ = Map.empty, read_max = 4096\<rparr>"
  let ?e = "[''CONTENT_LENGTH'' \<mapsto> ''0'', ''SCRIPT_FILENAME'' \<mapsto> ''/srv/cgi/a.cgi'',
             ''GATEWAY_INTERFACE'' \<mapsto> ''CGI/1.1'']"
  have wf: "''55'' \<noteq> [] \<and> list_all isdigit ''55'' \<and>
      decimal ''55'' = int (length (encode_runs ?runs)) \<and>
      int (length (encode_runs ?runs)) \<le> MAX_HEADER_LENGTH \<and>
      list_all nul_free ?runs \<and> even (length ?runs)"
    by (simp add: isdigit_def decimal_def decimal_from_def digit_val_def MAX_HEADER_LENGTH_def
          nul_free_def NUL_def)
  have inp: "stdin ?s = ''55'' @ CHR '':'' # encode_runs ?runs @ CHR '','' # []"
    by simp
  have ev: "main (\<lambda>p a e. None) (\<lambda>n. []) [''scgi_run''] ?s =
            (Inl (Exec ''/srv/cgi/a.cgi'' [''/srv/cgi/a.cgi''] ?e),
             \<lparr>stdin = [], stdout = [], environ = ?e, read_max = 4096\<rparr>)"
    by (simp add: main_def read_scgi_environment_def read_char_def sys_read_def isdigit_def
        digit_val_def read_length_loop.simps MAX_HEADER_LENGTH_def return_error_def
        read_table_loop.simps strlen_at_def string_at_def NUL_def setenv_def unsetenv_def
        resolve_path_def getenv_def validate_path_def dispatch_def)
  from wf inp have hyp: "''55'' \<noteq> [] \<and> list_all isdigit ''55'' \<and>
      decimal ''55'' = int (length (encode_runs ?runs)) \<and>
      int (length (encode_runs ?runs)) \<le> MAX_HEADER_LENGTH \<and>
      list_all nul_free ?runs \<and> even (length ?runs) \<and>
      stdin ?s = ''55'' @ CHR '':'' # encode_runs ?runs @ CHR '','' # []"
    by (intro conjI) (elim conjE, assumption)+
  have "?e = (environ ?s ++ map_of (rev (filter (\<lambda>(n, v). env_name_ok n) (pairs_of ?runs))))
               (''SCGI'' := None, ''GATEWAY_INTERFACE'' \<mapsto> ''CGI/1.1'')"
    by (rule effective_environment [THEN conjunct2, rule_format, OF hyp ev])
  then have "?e = (Map.empty ++ map_of (rev (filter (\<lambda>(n, v). env_name_ok n) (pairs_of ?runs))))
               (''SCGI'' := None, ''GATEWAY_INTERFACE'' \<mapsto> ''CGI/1.1'')"
    by (simp only: proc.simps)
  with wf ev show ?thesis by (intro conjI) (elim conjE, assumption)+
qed

text \<open>
  C8 as stated fails on the header block with the single pair of the name \<open>X=Y\<close> and the
  value \<open>v\<close>: the handler is executed, and the environment it receives has no entry for
  that pair.
\<close>

theorem effective_environment_counterexample:
  "(''6'' \<noteq> [] \<and> list_all isdigit ''6'' \<and>
    decimal ''6'' = int (length (encode_runs [''X=Y'', ''v''])) \<and>
    list_all nul_free [''X=Y'', ''v''] \<and> even (length [''X=Y'', ''v'']) \<and>
    pairs_of [''X=Y'', ''v''] = [(''X=Y'', ''v'')]) \<and>
   main (\<lambda>p a e. None) (\<lambda>n. []) [''scgi_run'', ''/bin/true'']
     \<lparr>stdin = ''6:'' @ encode_runs [''X=Y'', ''v''] @ '','', stdout = [],
      environ = Map.empty, read_max = 4096\<rparr> =
   (Inl (Exec ''/bin/true'' [''/bin/true''] [''GATEWAY_INTERFACE'' \<mapsto> ''CGI/1.1'']),
    \<lparr>stdin = [], stdout = [], environ = [''GATEWAY_INTERFACE'' \<mapsto> ''CGI/1.1''], read_max = 4096\<rparr>) \<and>
   [''GATEWAY_INTERFACE'' \<mapsto> ''CGI/1.1''] ''X=Y'' = None"
proof -
  have wf: "''6'' \<noteq> [] \<and> list_all isdigit ''6'' \<and>
    decimal ''6'' = int (length (encode_runs [''X=Y'', ''v''])) \<and>
    list_all nul_free [''X=Y'', ''v''] \<and> even (length [''X=Y'', ''v'']) \<and>
    pairs_of [''X=Y'', ''v''] = [(''X=Y'', ''v'')]"
    by (simp add: isdigit_def decimal_def decimal_from_def digit_val_def nul_free_def NUL_def)
  have ev: "main (\<lambda>p a e. None) (\<lambda>n. []) [''scgi_run'', ''/bin/true'']
     \<lparr>stdin = ''6:'' @ encode_runs [''X=Y'', ''v''] @ '','', stdout = [],
      environ = Map.empty, read_max = 4096\<rparr> =
   (Inl (Exec ''/bin/true'' [''/bin/true''] [''GATEWAY_INTERFACE'' \<mapsto> ''CGI/1.1'']),
    \<lparr>stdin = [], stdout = [], environ = [''GATEWAY_INTERFACE'' \<mapsto> ''CGI/1.1''], read_max = 4096\<rparr>)"
    by (simp add: main_def read_scgi_environment_def read_char_def sys_read_def isdigit_def
        digit_val_def read_length_loop.simps MAX_HEADER_LENGTH_def return_error_def
        read_table_loop.simps strlen_at_def string_at_def NUL_def setenv_def unsetenv_def
        resolve_path_def getenv_def validate_path_def dispatch_def last_index_def
        arg_read_def arg_start_def arg_area_def)
  have no: "[''GATEWAY_INTERFACE'' \<mapsto> ''CGI/1.1''] ''X=Y'' = None" by simp
  from wf ev no show ?thesis by (intro conjI) (elim conjE, assumption)+
qed

subsection \<open>C9: how far the walk over the table reads\<close>

text \<open>
  C9. When the last byte of a non-empty payload is NUL, every scan for a terminating NUL
  that starts inside the payload ends inside it, and the walk never reads outside the
  buffer. When the last byte is not NUL the walk does read outside the buffer. For the
  payload \<open>A\0B\<close>: the name ends at offset 1, the value starts at offset 2, which the
  check of line 135 accepts, and the scan for the end of the value runs over \<open>B\<close> and the
  comma and leaves the buffer of \<open>len + 1\<close> bytes.
\<close>

theorem table_walk_bounds:
  "(payload \<noteq> [] \<and> last payload = NUL \<longrightarrow>
      fst (read_table_loop (payload @ [CHR '','']) (length payload) name s) \<noteq> Inl Undefined \<and>
      (\<forall>i<length payload.
         \<exists>n. strlen_at (payload @ [CHR '','']) i = Some n \<and> i + n < length payload)) \<and>
   (payload \<noteq> [] \<and> last payload \<noteq> NUL \<longrightarrow>
      fst (read_table_loop (payload @ [CHR '','']) (length payload) 0 s) = Inl Undefined) \<and>
   last (''A'' @ [NUL] @ ''B'') \<noteq> NUL \<and>
   strlen_at ((''A'' @ [NUL] @ ''B'') @ [CHR '','']) 0 = Some 1 \<and>
   strlen_at ((''A'' @ [NUL] @ ''B'') @ [CHR '','']) 2 = None \<and>
   read_table_loop ((''A'' @ [NUL] @ ''B'') @ [CHR '','']) 3 0 s = (Inl Undefined, s)"
proof -
  have "read_table_loop ((''A'' @ [NUL] @ ''B'') @ [CHR '','']) 3 0 s = (Inl Undefined, s)"
    by (simp add: read_table_loop.simps strlen_at_def NUL_def)
  moreover have "strlen_at ((''A'' @ [NUL] @ ''B'') @ [CHR '','']) 0 = Some 1"
    "strlen_at ((''A'' @ [NUL] @ ''B'') @ [CHR '','']) 2 = None"
    "last (''A'' @ [NUL] @ ''B'') \<noteq> NUL"
    by (simp_all add: strlen_at_def NUL_def)
  ultimately show ?thesis
    using read_table_loop_defined [of payload name s] strlen_at_inside [of payload]
      read_table_loop_overrun [of payload 0 s]
    by (cases "payload = []") auto
qed

text \<open>The theorem at the payloads \<open>A\0b\0\<close> and \<open>A\0b\<close>.\<close>

theorem table_walk_bounds_witness:
  "''A'' @ [NUL] @ ''b'' @ [NUL] \<noteq> [] \<and> last (''A'' @ [NUL] @ ''b'' @ [NUL]) = NUL \<and>
   fst (read_table_loop ((''A'' @ [NUL] @ ''b'' @ [NUL]) @ [CHR '',''])
          (length (''A'' @ [NUL] @ ''b'' @ [NUL])) 0
          \<lparr>stdin = [], stdout = [], environ = Map.empty, read_max = 4096\<rparr>) \<noteq> Inl Undefined \<and>
   ''A'' @ [NUL] @ ''b'' \<noteq> [] \<and> last (''A'' @ [NUL] @ ''b'') \<noteq> NUL \<and>
   fst (read_table_loop ((''A'' @ [NUL] @ ''b'') @ [CHR '','']) (length (''A'' @ [NUL] @ ''b'')) 0
          \<lparr>stdin = [], stdout = [], environ = Map.empty, read_max = 4096\<rparr>) = Inl Undefined"
  using
    table_walk_bounds [of "''A'' @ [NUL] @ ''b'' @ [NUL]" 0
      "\<lparr>stdin = [], stdout = [], environ = Map.empty, read_max = 4096\<rparr>"]
    table_walk_bounds [of "''A'' @ [NUL] @ ''b''" 0
      "\<lparr>stdin = [], stdout = [], environ = Map.empty, read_max = 4096\<rparr>"]
  by (simp add: NUL_def)

subsection \<open>C10: the index of the last character of the first argument\<close>

text \<open>
  C10. The classification of the first argument reads its byte at index
  \<^verbatim>\<open>strlen(argv[1]) - 1\<close>. For every non-empty argument (shorter than \<open>2 ^ 64\<close> bytes, as
  every string of the machine) this index is inside the string, the byte read is the last
  character of the argument, and it decides between the directory and the script. For the
  empty argument the index is \<open>- 1\<close>, that is \<^verbatim>\<open>SIZE_MAX\<close>, and the read is outside the
  string. Nothing in \<^verbatim>\<open>main\<close> guards against it: the program reads the byte before the
  argument, which is the NUL that ends \<^verbatim>\<open>argv[0]\<close>, and goes on with the empty string as
  the script.
\<close>

theorem first_argument_index:
  "(a \<noteq> [] \<and> length a < 2 ^ 64 \<longrightarrow>
      unat (last_index a) < length a \<and> char_at a (last_index a) = Some (last a)) \<and>
   last_index [] = - 1 \<and> unat (last_index []) = 2 ^ 64 - 1 \<and>
   char_at [] (last_index []) = None \<and>
   (1 < length argv \<and> argv ! 1 \<noteq> [] \<and> length (argv ! 1) < 2 ^ 64 \<longrightarrow>
      arg_read argv 1 (last_index (argv ! 1)) = char_at (argv ! 1) (last_index (argv ! 1)) \<and>
      resolve_path argv s =
        (if last (argv ! 1) = CHR ''/''
         then (case getenv ''SCRIPT_FILENAME'' s of
                 None \<Rightarrow> return_error ''500 Internal Error''
                           ''CGI environment missing SCRIPT_FILENAME'' s
               | Some f \<Rightarrow> (Inr (f, Some (argv ! 1), [f]), s))
         else (Inr (argv ! 1, None, drop 1 argv), s))) \<and>
   (1 < length argv \<and> argv ! 1 = [] \<longrightarrow>
      arg_read argv 1 (last_index (argv ! 1)) = Some NUL \<and>
      resolve_path argv s = (Inr ([], None, drop 1 argv), s))"
proof -
  have 1: "unat (last_index a) < length a \<and> char_at a (last_index a) = Some (last a)"
    if "a \<noteq> []" "length a < 2 ^ 64"
    using that by (simp add: last_index_nonempty char_at_last)
  have 2: "last_index [] = - 1" "unat (last_index []) = 2 ^ 64 - 1"
    "char_at [] (last_index []) = None"
    by (simp_all add: last_index_empty char_at_def unsigned_minus_1_eq_mask mask_eq_exp_minus_1)
  have 3: "arg_read argv 1 (last_index (argv ! 1)) = char_at (argv ! 1) (last_index (argv ! 1)) \<and>
      resolve_path argv s =
        (if last (argv ! 1) = CHR ''/''
         then (case getenv ''SCRIPT_FILENAME'' s of
                 None \<Rightarrow> return_error ''500 Internal Error''
                           ''CGI environment missing SCRIPT_FILENAME'' s
               | Some f \<Rightarrow> (Inr (f, Some (argv ! 1), [f]), s))
         else (Inr (argv ! 1, None, drop 1 argv), s))"
    if "1 < length argv" "argv ! 1 \<noteq> []" "length (argv ! 1) < 2 ^ 64"
  proof (cases "last (argv ! 1) = CHR ''/''")
    case True
    with arg_read_first_argument [OF that] char_at_last [OF that(2,3)]
      resolve_path_directory [OF that True, of s]
    show ?thesis by (simp only: if_True simp_thms)
  next
    case False
    with arg_read_first_argument [OF that] char_at_last [OF that(2,3)]
      resolve_path_override [OF that False, of s]
    show ?thesis by (simp only: if_False simp_thms)
  qed
  have 4: "arg_read argv 1 (last_index (argv ! 1)) = Some NUL \<and>
      resolve_path argv s = (Inr ([], None, drop 1 argv), s)"
    if "1 < length argv" "argv ! 1 = []"
    using arg_read_empty_argument [OF that] resolve_path_empty [OF that, of s]
    by (simp only: simp_thms)
  show ?thesis using 1 2 3 4 by blast
qed

text \<open>The theorem at the arguments \<open>/srv/cgi/\<close> and the empty string.\<close>

theorem first_argument_index_witness:
  "''/srv/cgi/'' \<noteq> [] \<and> length ''/srv/cgi/'' < 2 ^ 64 \<and>
   unat (last_index ''/srv/cgi/'') < length ''/srv/cgi/'' \<and>
   char_at ''/srv/cgi/'' (last_index ''/srv/cgi/'') = Some CHR ''/'' \<and>
   arg_read [''scgi_run'', ''/srv/cgi/''] 1 (last_index ''/srv/cgi/'') = Some CHR ''/'' \<and>
   resolve_path [''scgi_run'', ''/srv/cgi/'']
     \<lparr>stdin = [], stdout = [], environ = [''SCRIPT_FILENAME'' \<mapsto> ''/srv/cgi/a.cgi''],
      read_max = 4096\<rparr> =
   (Inr (''/srv/cgi/a.cgi'', Some ''/srv/cgi/'', [''/srv/cgi/a.cgi'']),
    \<lparr>stdin = [], stdout = [], environ = [''SCRIPT_FILENAME'' \<mapsto> ''/srv/cgi/a.cgi''],
     read_max = 4096\<rparr>) \<and>
   1 < length [''scgi_run'', []] \<and> [''scgi_run'', []] ! 1 = [] \<and>
   arg_read [''scgi_run'', []] 1 (last_index []) = Some NUL \<and>
   resolve_path [''scgi_run'', []]
     \<lparr>stdin = [], stdout = [], environ = Map.empty, read_max = 4096\<rparr> =
   (Inr ([], None, [[]]),
    \<lparr>stdin = [], stdout = [], environ = Map.empty, read_max = 4096\<rparr>)"
proof -
  let ?s = "\<lparr>stdin = [], stdout = [], environ = [''SCRIPT_FILENAME'' \<mapsto> ''/srv/cgi/a.cgi''],
             read_max = 4096\<rparr>"
  let ?e = "\<lparr>stdin = [], stdout = [], environ = Map.empty, read_max = 4096\<rparr>"
  note dir = first_argument_index [of "''/srv/cgi/''" "[''scgi_run'', ''/srv/cgi/'']" ?s]
  note emp = first_argument_index [of "''/srv/cgi/''" "[''scgi_run'', []]" ?e]
  have len: "''/srv/cgi/'' \<noteq> [] \<and> length ''/srv/cgi/'' < 2 ^ 64" by simp
  from dir [THEN conjunct1, rule_format, OF len]
  have a: "unat (last_index ''/srv/cgi/'') < length ''/srv/cgi/''"
    "char_at ''/srv/cgi/'' (last_index ''/srv/cgi/'') = Some CHR ''/''" by simp_all
  have hyp: "1 < length [''scgi_run'', ''/srv/cgi/''] \<and> [''scgi_run'', ''/srv/cgi/''] ! 1 \<noteq> [] \<and>
             length ([''scgi_run'', ''/srv/cgi/''] ! 1) < 2 ^ 64" by simp
  from dir [THEN conjunct2, THEN conjunct2, THEN conjunct2, THEN conjunct2, THEN conjunct1,
            rule_format, OF hyp] a
  have c: "arg_read [''scgi_run'', ''/srv/cgi/''] 1 (last_index ''/srv/cgi/'') = Some CHR ''/''"
    "resolve_path [''scgi_run'', ''/srv/cgi/''] ?s =
       (Inr (''/srv/cgi/a.cgi'', Some ''/srv/cgi/'', [''/srv/cgi/a.cgi'']), ?s)"
    by (simp_all add: getenv_def)
  have hyp': "1 < length [''scgi_run'', []] \<and> [''scgi_run'', ([]::string)] ! 1 = []" by simp
  from emp [THEN conjunct2, THEN conjunct2, THEN conjunct2, THEN conjunct2, THEN conjunct2,
            rule_format, OF hyp']
  have d: "arg_read [''scgi_run'', []] 1 (last_index []) = Some NUL"
    "resolve_path [''scgi_run'', []] ?e = (Inr ([], None, [[]]), ?e)"
    by simp_all
  from len a c d show ?thesis by simp
qed

end
